theory Spec2Isabelle
  imports Main
begin

section \<open>Python values, exceptions and string helpers\<close>

text \<open>
  The agent (\<^verbatim>\<open>bash_agent.py\<close>) and the text sniffer (\<^verbatim>\<open>temp.py\<close>) are Python.
  Strings are lists of characters. A value produced by \<^verbatim>\<open>json.loads\<close> is a \<open>json\<close>
  term; \<open>JNull\<close> is Python's \<^verbatim>\<open>None\<close>. Numbers are integers: the code treats every
  number alike (truth value, no membership test, no slicing), so floats add no case.
  A dictionary is an association list read with \<open>map_of\<close>.
\<close>

datatype json =
    JNull
  | JBool bool
  | JNum int
  | JStr string
  | JArr "json list"
  | JObj "(string \<times> json) list"

text \<open>
  An exception is its class and the text \<^verbatim>\<open>str(e)\<close>. The text is left empty where
  the code never reads it. Every function with a \<^verbatim>\<open>raise\<close> or a \<^verbatim>\<open>try\<close> in it
  returns \<open>py_exn + 'a\<close>: \<open>Inl\<close> is an exception that reaches the caller.
\<close>

datatype exn_class =
    TimeoutExpired
  | JSONDecodeError
  | TypeError
  | AttributeError
  | KeyError
  | ImportError
  | ValidationError
  | OtherException

datatype py_exn = Exn exn_class string

fun exn_str :: "py_exn \<Rightarrow> string" where
  "exn_str (Exn c s) = s"

fun exn_cls :: "py_exn \<Rightarrow> exn_class" where
  "exn_cls (Exn c s) = c"

definition raise :: "exn_class \<Rightarrow> py_exn + 'a" where
  "raise c = Inl (Exn c [])"

text \<open>Python's truth value of a value (\<^verbatim>\<open>if command\<close>, \<^verbatim>\<open>not command\<close>).\<close>

fun truthy :: "json \<Rightarrow> bool" where
  "truthy JNull = False"
| "truthy (JBool b) = b"
| "truthy (JNum n) = (n \<noteq> 0)"
| "truthy (JStr s) = (s \<noteq> [])"
| "truthy (JArr xs) = (xs \<noteq> [])"
| "truthy (JObj kvs) = (kvs \<noteq> [])"

text \<open>
  A text field that may be \<^verbatim>\<open>None\<close> is a \<open>string option\<close>. \<open>truthy_text\<close> is its
  truth value, \<open>fmt_text\<close> what an f-string prints for it.
\<close>

fun truthy_text :: "string option \<Rightarrow> bool" where
  "truthy_text None = False"
| "truthy_text (Some s) = (s \<noteq> [])"

fun fmt_text :: "string option \<Rightarrow> string" where
  "fmt_text None = ''None''"
| "fmt_text (Some s) = s"

text \<open>
  \<^verbatim>\<open>str.strip()\<close>: the whitespace characters of \<^verbatim>\<open>str.isspace\<close> among the code
  points below 256.
\<close>

definition is_space :: "char \<Rightarrow> bool" where
  "is_space c = ((of_char c :: nat) \<in> {9, 10, 11, 12, 13, 28, 29, 30, 31, 32, 133, 160})"

definition lstrip :: "string \<Rightarrow> string" where
  "lstrip s = dropWhile is_space s"

definition rstrip :: "string \<Rightarrow> string" where
  "rstrip s = rev (dropWhile is_space (rev s))"

definition strip :: "string \<Rightarrow> string" where
  "strip s = rstrip (lstrip s)"

text \<open>\<^verbatim>\<open>sub in s\<close> on strings: \<open>sub\<close> occurs in \<open>s\<close> as a contiguous piece.\<close>

definition starts_with :: "string \<Rightarrow> string \<Rightarrow> bool" where
  "starts_with sub s = (take (length sub) s = sub)"

fun contains :: "string \<Rightarrow> string \<Rightarrow> bool" where
  "contains sub [] = (sub = [])"
| "contains sub (c # cs) = (starts_with sub (c # cs) \<or> contains sub cs)"

text \<open>\<^verbatim>\<open>sep.join(parts)\<close>.\<close>

fun join :: "string \<Rightarrow> string list \<Rightarrow> string" where
  "join sep [] = []"
| "join sep [p] = p"
| "join sep (p # q # ps) = p @ sep @ join sep (q # ps)"

text \<open>Decimal text of an integer, as an f-string prints it.\<close>

definition digit_char :: "nat \<Rightarrow> char" where
  "digit_char d = char_of (48 + d)"

fun show_nat :: "nat \<Rightarrow> string" where
  "show_nat n = (if n < 10 then [digit_char n] else show_nat (n div 10) @ [digit_char (n mod 10)])"

definition show_int :: "int \<Rightarrow> string" where
  "show_int i = (if i < 0 then CHR ''-'' # show_nat (nat (- i)) else show_nat (nat i))"

section \<open>The shell executor (\<^verbatim>\<open>execute_bash_command\<close>)\<close>

text \<open>
  \<^verbatim>\<open>subprocess.run(command, shell=True, capture_output=True, text=True, timeout=30, cwd=cwd)\<close>
  is the operating system's part: a parameter \<open>run\<close> that, for a command and a working
  directory, either returns the completed process or raises. What it raises is of
  class \<^verbatim>\<open>Exception\<close>: \<^verbatim>\<open>TimeoutExpired\<close> after 30 seconds, or any other failure to
  start the subprocess or to talk to it. The command is a \<open>json\<close> value, since the
  loop hands over whatever the "command" field held.
\<close>

record completed_process =
  stdout :: string
  stderr :: string
  returncode :: int

type_synonym subprocess_run = "json \<Rightarrow> string \<Rightarrow> py_exn + completed_process"

definition default_cwd :: string where
  "default_cwd = ''/home/ye/ml-experiments/harmony''"

definition execute_bash_command :: "subprocess_run \<Rightarrow> json \<Rightarrow> string \<Rightarrow> py_exn + (string \<times> int)" where
  "execute_bash_command run command cwd =
     (case run command cwd of
        Inr result \<Rightarrow>
          (let output = stdout result @ stderr result
           in Inr (strip output, returncode result))
      | Inl e \<Rightarrow>
          (if exn_cls e = TimeoutExpired
           then Inr (''Error: Command timed out after 30 seconds'', - 1)
           else Inr (''Error: '' @ exn_str e, - 1)))"

section \<open>Messages of the multi-channel protocol\<close>

text \<open>
  The \<^verbatim>\<open>openai_harmony\<close> types the code reads and builds. A message carries its
  author (role and optional name), an optional channel, an optional recipient and a
  list of content items; only a \<open>TextContent\<close> item has the attribute \<^verbatim>\<open>text\<close>.
  \<^verbatim>\<open>Message.from_role_and_content\<close> takes a string or a content object; handed
  \<^verbatim>\<open>None\<close> it raises the library's validation error.
\<close>

datatype role = SYSTEM | DEVELOPER | USER | ASSISTANT | TOOL

record tool_description =
  td_name :: string
  td_description :: string
  td_parameters :: json

datatype content =
    TextContent string
  | SystemContent string string
  | DeveloperContent string "tool_description list"

record message =
  author_role :: role
  author_name :: "string option"
  channel :: "string option"
  recipient :: "string option"
  content :: "content list"

section \<open>The endpoint's reply\<close>

text \<open>
  The chat-completions response the loop reads, with the fields it reads. A record
  field holds what the code's \<^verbatim>\<open>get\<close> returns: an absent \<^verbatim>\<open>content\<close> or
  \<^verbatim>\<open>reasoning_content\<close> is \<open>Some []\<close> (the default \<^verbatim>\<open>""\<close>), a JSON null is \<open>None\<close>;
  an absent tool-call list is \<open>[]\<close>; a tool call without a function has the name
  \<^verbatim>\<open>""\<close> and one without arguments has the string \<^verbatim>\<open>"{}"\<close>. The response itself is
  its list of choices, \<open>[]\<close> when the key is absent.
\<close>

record tool_call =
  function_name :: string
  function_arguments :: json

record reply_message =
  msg_content :: "string option"
  msg_reasoning_content :: "string option"
  msg_tool_calls :: "tool_call list"

record choice =
  choice_message :: reply_message
  finish_reason :: "string option"

section \<open>What the code calls and does not define\<close>

text \<open>
  Library calls and the two helpers \<^verbatim>\<open>looks_like_hdl_code\<close> and
  \<^verbatim>\<open>looks_like_shell_command\<close>, which \<^verbatim>\<open>temp.py\<close> calls and the repository's
  sources here do not define, are parameters, gathered in one record:
  \<^item> \<open>harmony_decode role text\<close> is \<^verbatim>\<open>enc.encode(text, allowed_special="all")\<close>
    followed by \<^verbatim>\<open>enc.parse_messages_from_completion_tokens(tokens, role=role, strict=False)\<close>,
    loading the encoding included; a missing library is \<open>Inl\<close> of an \<open>ImportError\<close>;
  \<^item> \<open>json_loads\<close> is \<^verbatim>\<open>json.loads\<close>, \<open>None\<close> for a \<^verbatim>\<open>JSONDecodeError\<close>;
  \<^item> \<open>re_sub pattern repl text\<close> is \<^verbatim>\<open>re.sub\<close>; \<open>re_findall pattern text\<close> is
    \<^verbatim>\<open>re.findall(pattern, text, re.DOTALL | re.IGNORECASE)\<close>;
  \<^item> \<open>subprocess_run\<close> is \<^verbatim>\<open>subprocess.run\<close> as above;
  \<^item> \<open>py_repr\<close> is \<^verbatim>\<open>str()\<close> of a value that is not a string;
  \<^item> \<open>call_model\<close> is the request to the endpoint (\<^verbatim>\<open>call_model\<close>, whose result
    depends on the environment and the network): the choices of the response, or
    an exception.
\<close>

record externals =
  harmony_decode :: "role option \<Rightarrow> string \<Rightarrow> py_exn + message list"
  json_loads :: "string \<Rightarrow> json option"
  looks_like_hdl_code :: "json \<Rightarrow> py_exn + bool"
  looks_like_shell_command :: "string \<Rightarrow> py_exn + bool"
  re_sub :: "string \<Rightarrow> string \<Rightarrow> string \<Rightarrow> string"
  re_findall :: "string \<Rightarrow> string \<Rightarrow> string list"
  subprocess_run :: "json \<Rightarrow> string \<Rightarrow> py_exn + completed_process"
  py_repr :: "json \<Rightarrow> string"
  call_model :: "message list \<Rightarrow> py_exn + choice list"

section \<open>Operations on parsed JSON\<close>

text \<open>
  \<^verbatim>\<open>key in data\<close>: key membership on a dictionary, element membership on a list,
  substring test on a string, \<^verbatim>\<open>TypeError\<close> on a number, a boolean or \<^verbatim>\<open>None\<close>.
\<close>

fun py_in :: "string \<Rightarrow> json \<Rightarrow> py_exn + bool" where
  "py_in key (JObj kvs) = Inr (key \<in> set (map fst kvs))"
| "py_in key (JArr xs) = Inr (JStr key \<in> set xs)"
| "py_in key (JStr s) = Inr (contains key s)"
| "py_in key v = raise TypeError"

text \<open>
  \<^verbatim>\<open>data[key]\<close> with a string key: the value on a dictionary (\<^verbatim>\<open>KeyError\<close> when
  absent), \<^verbatim>\<open>TypeError\<close> on everything else.
\<close>

fun py_getitem :: "json \<Rightarrow> string \<Rightarrow> py_exn + json" where
  "py_getitem (JObj kvs) key = (case map_of kvs key of Some v \<Rightarrow> Inr v | None \<Rightarrow> raise KeyError)"
| "py_getitem v key = raise TypeError"

text \<open>
  \<^verbatim>\<open>args.get(key)\<close>: the value or \<^verbatim>\<open>None\<close> on a dictionary, \<^verbatim>\<open>AttributeError\<close>
  on a value without \<^verbatim>\<open>get\<close>.
\<close>

fun py_get :: "json \<Rightarrow> string \<Rightarrow> py_exn + json" where
  "py_get (JObj kvs) key = (case map_of kvs key of Some v \<Rightarrow> Inr v | None \<Rightarrow> Inr JNull)"
| "py_get v key = raise AttributeError"

text \<open>
  \<^verbatim>\<open>command[:100]\<close>, evaluated inside the log messages: a string or a list can be
  sliced, anything else raises.
\<close>

fun py_slice :: "json \<Rightarrow> py_exn + json" where
  "py_slice (JStr s) = Inr (JStr (take 100 s))"
| "py_slice (JArr xs) = Inr (JArr (take 100 xs))"
| "py_slice v = raise TypeError"

section \<open>The text sniffer (\<^verbatim>\<open>extract_command_from_text\<close>, \<^verbatim>\<open>temp.py\<close>)\<close>

definition call_token :: string where
  "call_token = ''<|call|>''"

text \<open>
  \<^verbatim>\<open>text.count(sep)\<close> and \<^verbatim>\<open>text.split(sep)\<close>: occurrences are found from the left
  and do not overlap. The only separator the code uses is \<open>call_token\<close> (Python
  raises on an empty separator).
\<close>

fun count :: "string \<Rightarrow> string \<Rightarrow> nat" where
  "count sep [] = 0"
| "count sep (c # cs) =
     (if starts_with sep (c # cs) then Suc (count sep (drop (length sep - 1) cs))
      else count sep cs)"

fun split :: "string \<Rightarrow> string \<Rightarrow> string list" where
  "split sep [] = [[]]"
| "split sep (c # cs) =
     (if starts_with sep (c # cs) then [] # split sep (drop (length sep - 1) cs)
      else (case split sep cs of
              [] \<Rightarrow> [[c]]
            | p # ps \<Rightarrow> (c # p) # ps))"

text \<open>Lines 39 to 48: the text handed to the encoder.\<close>

definition harmony_input :: "string \<Rightarrow> string" where
  "harmony_input original_text =
     (let call_token_count = count call_token original_text
      in if call_token_count > 10
         then (let parts = split call_token original_text
               in join call_token (take 11 parts))
         else original_text)"

definition backslash :: char where
  "backslash = CHR 0x5C"

definition newline :: char where
  "newline = CHR 0x0A"

definition code_block_pattern :: string where
  "code_block_pattern =
     ''```(?:bash|sh|shell)'' @ [backslash] @ ''s*'' @ [backslash] @ ''n(.*?)''
       @ [backslash] @ ''n```''"

definition join_blocks :: "string list \<Rightarrow> string" where
  "join_blocks code_blocks = join [newline] (map strip code_blocks)"

text \<open>
  The loop over the decoded messages returns from inside. \<open>Return c\<close> is
  \<^verbatim>\<open>return c\<close>; \<open>Finished hdl\<close> is the loop running to its end with the flag
  \<^verbatim>\<open>hdl_detected_in_json\<close>.
\<close>

datatype scan_result = Return json | Finished bool

text \<open>Lines 62 to 69: a channel named for a shell.\<close>

fun direct_channel_items :: "content list \<Rightarrow> json option" where
  "direct_channel_items [] = None"
| "direct_channel_items (TextContent t # items) =
     (let command = strip t
      in if command \<noteq> [] then Some (JStr command) else direct_channel_items items)"
| "direct_channel_items (c # items) = direct_channel_items items"

text \<open>
  Lines 72 to 101: the analysis channel. \<open>AReturn c\<close> is \<^verbatim>\<open>return c\<close>, \<open>ABreak\<close> the
  \<^verbatim>\<open>break\<close> after the flag is set, \<open>AExhausted\<close> the end of the content items.
  An exception other than \<^verbatim>\<open>JSONDecodeError\<close> leaves the loop.
\<close>

datatype analysis_result = AReturn json | ABreak | AExhausted

fun analysis_items :: "externals \<Rightarrow> content list \<Rightarrow> py_exn + analysis_result" where
  "analysis_items env [] = Inr AExhausted"
| "analysis_items env (TextContent text_content # items) =
     (case json_loads env text_content of
        Some data \<Rightarrow>
          (case py_in ''cmd'' data of
             Inl e \<Rightarrow> Inl e
           | Inr False \<Rightarrow> analysis_items env items
           | Inr True \<Rightarrow>
               (case py_getitem data ''cmd'' of
                  Inl e \<Rightarrow> Inl e
                | Inr (JArr cmd_list) \<Rightarrow>
                    (if length cmd_list > 0
                     then (let command = last cmd_list
                           in case looks_like_hdl_code env command of
                                Inl e \<Rightarrow> Inl e
                              | Inr True \<Rightarrow>
                                  (case py_slice command of
                                     Inl e \<Rightarrow> Inl e
                                   | Inr shown \<Rightarrow> Inr ABreak)
                              | Inr False \<Rightarrow>
                                  (case py_slice command of
                                     Inl e \<Rightarrow> Inl e
                                   | Inr shown \<Rightarrow> Inr (AReturn command)))
                     else analysis_items env items)
                | Inr other \<Rightarrow> analysis_items env items))
      | None \<Rightarrow>
          (let raw_command = strip text_content
           in case looks_like_shell_command env raw_command of
                Inl e \<Rightarrow> Inl e
              | Inr False \<Rightarrow> analysis_items env items
              | Inr True \<Rightarrow>
                  (case looks_like_hdl_code env (JStr raw_command) of
                     Inl e \<Rightarrow> Inl e
                   | Inr True \<Rightarrow> analysis_items env items
                   | Inr False \<Rightarrow> Inr (AReturn (JStr raw_command)))))"
| "analysis_items env (c # items) = analysis_items env items"

text \<open>Lines 104 to 115: the final channel.\<close>

fun final_items :: "externals \<Rightarrow> content list \<Rightarrow> json option" where
  "final_items env [] = None"
| "final_items env (TextContent text_content # items) =
     (let code_blocks = re_findall env code_block_pattern text_content
      in if code_blocks \<noteq> [] then Some (JStr (join_blocks code_blocks))
         else final_items env items)"
| "final_items env (c # items) = final_items env items"

text \<open>
  One pass of the loop body (lines 55 to 115) for the message \<open>msg\<close>, entered with the
  flag \<open>hdl\<close>. The three tests are three \<^verbatim>\<open>if\<close> statements in a row.
\<close>

definition final_step :: "externals \<Rightarrow> message \<Rightarrow> bool \<Rightarrow> scan_result" where
  "final_step env msg hdl =
     (if channel msg = Some ''final''
      then (case final_items env (content msg) of
              Some command \<Rightarrow> Return command
            | None \<Rightarrow> Finished hdl)
      else Finished hdl)"

definition analysis_step :: "externals \<Rightarrow> message \<Rightarrow> bool \<Rightarrow> py_exn + scan_result" where
  "analysis_step env msg hdl =
     (if channel msg = Some ''analysis''
      then (case analysis_items env (content msg) of
              Inl e \<Rightarrow> Inl e
            | Inr (AReturn command) \<Rightarrow> Inr (Return command)
            | Inr ABreak \<Rightarrow> Inr (final_step env msg True)
            | Inr AExhausted \<Rightarrow> Inr (final_step env msg hdl))
      else Inr (final_step env msg hdl))"

definition process_message :: "externals \<Rightarrow> message \<Rightarrow> bool \<Rightarrow> py_exn + scan_result" where
  "process_message env msg hdl =
     (if channel msg \<in> set [Some ''bash'', Some ''sh'', Some ''shell'', Some ''cmd'']
      then (case direct_channel_items (content msg) of
              Some command \<Rightarrow> Inr (Return command)
            | None \<Rightarrow> analysis_step env msg hdl)
      else analysis_step env msg hdl)"

fun scan_messages :: "externals \<Rightarrow> message list \<Rightarrow> bool \<Rightarrow> py_exn + scan_result" where
  "scan_messages env [] hdl = Inr (Finished hdl)"
| "scan_messages env (msg # msgs) hdl =
     (case process_message env msg hdl of
        Inl e \<Rightarrow> Inl e
      | Inr (Return command) \<Rightarrow> Inr (Return command)
      | Inr (Finished hdl') \<Rightarrow> scan_messages env msgs hdl')"

text \<open>
  The body of the \<^verbatim>\<open>try\<close> (lines 27 to 121). \<open>Found c\<close> and \<open>NoCommand\<close> are its two
  kinds of \<^verbatim>\<open>return\<close>; \<open>FallThrough\<close> is leaving the \<^verbatim>\<open>try\<close> at its end, when the
  test of line 119 fails. \<open>Inl\<close> is an exception, which both handlers swallow.
\<close>

datatype harmony_outcome = Found json | NoCommand | FallThrough

definition harmony_path :: "externals \<Rightarrow> string \<Rightarrow> py_exn + harmony_outcome" where
  "harmony_path env original_text =
     (case harmony_decode env (Some ASSISTANT) (harmony_input original_text) of
        Inl e \<Rightarrow> Inl e
      | Inr parsed_messages \<Rightarrow>
          (case scan_messages env parsed_messages False of
             Inl e \<Rightarrow> Inl e
           | Inr (Return command) \<Rightarrow> Inr (Found command)
           | Inr (Finished hdl_detected_in_json) \<Rightarrow>
               (if parsed_messages \<noteq> [] \<or> hdl_detected_in_json then Inr NoCommand
                else Inr FallThrough)))"

text \<open>Lines 128 to 153: the regex scan, on the stripped text.\<close>

definition channel_pattern :: string where
  "channel_pattern =
     ''<'' @ [backslash] @ ''|channel'' @ [backslash] @ ''|>.*?<'' @ [backslash]
       @ ''|message'' @ [backslash] @ ''|>''"

definition end_pattern :: string where
  "end_pattern = ''<'' @ [backslash] @ ''|end'' @ [backslash] @ ''|>''"

definition start_pattern :: string where
  "start_pattern = ''<'' @ [backslash] @ ''|start'' @ [backslash] @ ''|>''"

definition assistant_pattern :: string where
  "assistant_pattern = ''^'' @ [backslash] @ ''s*assistant'' @ [backslash] @ ''s*''"

definition fallback_scan :: "externals \<Rightarrow> string \<Rightarrow> json option" where
  "fallback_scan env text0 =
     (let text1 = re_sub env channel_pattern [] text0;
          text2 = re_sub env end_pattern [] text1;
          text3 = re_sub env start_pattern [] text2;
          text4 = re_sub env assistant_pattern [] text3;
          text5 = strip text4
      in if text5 = [] then None
         else (let code_blocks = re_findall env code_block_pattern text5
               in if code_blocks \<noteq> [] then Some (JStr (join_blocks code_blocks))
                  else None))"

text \<open>
  The whole function. \<open>Inr None\<close> is \<^verbatim>\<open>return None\<close>. The regex scan runs when the
  \<^verbatim>\<open>try\<close> body raised or fell through.
\<close>

definition extract_command_from_text :: "externals \<Rightarrow> string \<Rightarrow> py_exn + json option" where
  "extract_command_from_text env text0 =
     (let original_text = text0;
          text1 = strip text0
      in if text1 = [] then Inr None
         else (case harmony_path env original_text of
                 Inr (Found command) \<Rightarrow> Inr (Some command)
               | Inr NoCommand \<Rightarrow> Inr None
               | Inr FallThrough \<Rightarrow> Inr (fallback_scan env text1)
               | Inl e \<Rightarrow> Inr (fallback_scan env text1)))"

text \<open>
  Whether \<^verbatim>\<open>extract_command_from_text\<close> runs its regex scan (lines 128 to 153): it
  got past the empty-text test of line 23, and the \<^verbatim>\<open>try\<close> neither returned a
  command nor returned \<^verbatim>\<open>None\<close>.
\<close>

definition fallback_reached :: "externals \<Rightarrow> string \<Rightarrow> bool" where
  "fallback_reached env text0 =
     (strip text0 \<noteq> []
      \<and> (case harmony_path env text0 of
           Inl e \<Rightarrow> True
         | Inr FallThrough \<Rightarrow> True
         | Inr other \<Rightarrow> False))"

section \<open>The agent's sniffer (\<^verbatim>\<open>run_bash_agent\<close>, lines 219 to 250)\<close>

text \<open>\<^verbatim>\<open>extract_command\<close> (lines 42 to 62); \<open>JNull\<close> is \<^verbatim>\<open>return None\<close>.\<close>

fun extract_command :: "externals \<Rightarrow> message list \<Rightarrow> py_exn + json" where
  "extract_command env [] = Inr JNull"
| "extract_command env (msg # msgs) =
     (if (case recipient msg of None \<Rightarrow> False
          | Some r \<Rightarrow> r \<noteq> [] \<and> contains ''execute_bash'' r)
      then (case content msg of
              [] \<Rightarrow> extract_command env msgs
            | TextContent content_text # rest \<Rightarrow>
                (case json_loads env content_text of
                   None \<Rightarrow> extract_command env msgs
                 | Some args \<Rightarrow>
                     (case py_get args ''command'' of
                        Inr v \<Rightarrow> Inr v
                      | Inl e \<Rightarrow>
                          (if exn_cls e \<in> set [JSONDecodeError, AttributeError, KeyError]
                           then extract_command env msgs
                           else Inl e)))
            | other # rest \<Rightarrow> extract_command env msgs)
      else extract_command env msgs)"

text \<open>
  Lines 222 to 230: the loop over the tool calls. The \<^verbatim>\<open>try\<close> has a bare
  \<^verbatim>\<open>except\<close>: whatever is raised inside leaves \<open>command\<close> as it was. The loop has
  no \<^verbatim>\<open>break\<close>.
\<close>

fun tool_calls_loop :: "externals \<Rightarrow> tool_call list \<Rightarrow> json \<Rightarrow> json" where
  "tool_calls_loop env [] command = command"
| "tool_calls_loop env (tc # tcs) command =
     (if contains ''bash'' (function_name tc)
      then (let args_str = function_arguments tc
            in case (case args_str of
                       JStr s \<Rightarrow> (case json_loads env s of
                                    Some a \<Rightarrow> Inr a
                                  | None \<Rightarrow> raise JSONDecodeError)
                     | other \<Rightarrow> Inr other) of
                 Inl e \<Rightarrow> tool_calls_loop env tcs command
               | Inr args \<Rightarrow>
                   (case py_get args ''command'' of
                      Inl e \<Rightarrow> tool_calls_loop env tcs command
                    | Inr v \<Rightarrow> tool_calls_loop env tcs v))
      else tool_calls_loop env tcs command)"

text \<open>
  Lines 233 to 239, entered when \<^verbatim>\<open>not command and content\<close>. Only
  \<^verbatim>\<open>json.JSONDecodeError\<close> is caught.
\<close>

definition content_json_path :: "externals \<Rightarrow> string \<Rightarrow> json \<Rightarrow> py_exn + json" where
  "content_json_path env content0 command =
     (case json_loads env (strip content0) of
        None \<Rightarrow> Inr command
      | Some content_json \<Rightarrow>
          (case py_in ''command'' content_json of
             Inl e \<Rightarrow> Inl e
           | Inr True \<Rightarrow> py_getitem content_json ''command''
           | Inr False \<Rightarrow> Inr command))"

text \<open>Lines 242 to 250, entered when \<^verbatim>\<open>not command\<close>; the \<^verbatim>\<open>except\<close> is bare.\<close>

definition harmony_format_path ::
  "externals \<Rightarrow> string option \<Rightarrow> string option \<Rightarrow> json \<Rightarrow> json" where
  "harmony_format_path env reasoning content0 command =
     (let full_text = strip (fmt_text reasoning @ [newline] @ fmt_text content0)
      in if contains ''execute_bash'' full_text
         then (case harmony_decode env None full_text of
                 Inl e \<Rightarrow> command
               | Inr parsed \<Rightarrow>
                   (case extract_command env parsed of
                      Inl e \<Rightarrow> command
                    | Inr v \<Rightarrow> v))
         else command)"

text \<open>The guards of the second and third path, as the code writes them.\<close>

definition after_tool_calls :: "externals \<Rightarrow> reply_message \<Rightarrow> json" where
  "after_tool_calls env msg =
     (let command = JNull
      in if msg_tool_calls msg \<noteq> [] then tool_calls_loop env (msg_tool_calls msg) command
         else command)"

definition content_path_entered :: "externals \<Rightarrow> reply_message \<Rightarrow> bool" where
  "content_path_entered env msg =
     (\<not> truthy (after_tool_calls env msg) \<and> truthy_text (msg_content msg))"

definition after_content_json :: "externals \<Rightarrow> reply_message \<Rightarrow> py_exn + json" where
  "after_content_json env msg =
     (let command = after_tool_calls env msg
      in if content_path_entered env msg
         then (case msg_content msg of
                 Some c \<Rightarrow> content_json_path env c command
               | None \<Rightarrow> Inr command)
         else Inr command)"

definition harmony_path_entered :: "externals \<Rightarrow> reply_message \<Rightarrow> bool" where
  "harmony_path_entered env msg =
     (case after_content_json env msg of
        Inl e \<Rightarrow> False
      | Inr command \<Rightarrow> \<not> truthy command)"

definition sniff_reply :: "externals \<Rightarrow> reply_message \<Rightarrow> py_exn + json" where
  "sniff_reply env msg =
     (case after_content_json env msg of
        Inl e \<Rightarrow> Inl e
      | Inr command \<Rightarrow>
          (if \<not> truthy command
           then Inr (harmony_format_path env (msg_reasoning_content msg) (msg_content msg) command)
           else Inr command))"

section \<open>The agent loop (\<^verbatim>\<open>run_bash_agent\<close>)\<close>

definition bash_tool :: tool_description where
  "bash_tool =
     \<lparr>td_name = ''execute_bash'',
      td_description = ''Execute bash commands to check files, directories, run commands, etc.'',
      td_parameters =
        JObj [(''type'', JStr ''object''),
              (''properties'',
               JObj [(''command'',
                      JObj [(''type'', JStr ''string''),
                            (''description'',
                             JStr (''Bash command to execute (e.g., '' @ [CHR 0x27] @ ''ls -la''
                                   @ [CHR 0x27] @ '', '' @ [CHR 0x27] @ ''cat file.txt''
                                   @ [CHR 0x27] @ '')''))])]),
              (''required'', JArr [JStr ''command''])]\<rparr>"

definition developer_instructions :: string where
  "developer_instructions =
     ''When users ask you to perform file/system operations:'' @ [newline]
     @ ''1. Call execute_bash with the appropriate command'' @ [newline]
     @ ''2. Wait for results'' @ [newline]
     @ ''3. Provide a friendly summary'' @ [newline, newline]
     @ ''Always call the tool - don'' @ [CHR 0x27] @ ''t just suggest commands.''"

text \<open>Lines 165 to 185: the three turns the conversation starts with.\<close>

definition initial_messages :: "string \<Rightarrow> message list" where
  "initial_messages user_task =
     [\<lparr>author_role = SYSTEM, author_name = None, channel = None, recipient = None,
       content = [SystemContent ''You are a helpful bash assistant that can execute commands.''
                    ''2025-11-19'']\<rparr>,
      \<lparr>author_role = DEVELOPER, author_name = None, channel = None, recipient = None,
       content = [DeveloperContent developer_instructions [bash_tool]]\<rparr>,
      \<lparr>author_role = USER, author_name = None, channel = None, recipient = None,
       content = [TextContent user_task]\<rparr>]"

text \<open>\<^verbatim>\<open>a or b\<close> and \<^verbatim>\<open>a if a else b\<close> on two texts: the first when it is true.\<close>

definition text_or :: "string option \<Rightarrow> string option \<Rightarrow> string option" where
  "text_or a b = (if truthy_text a then a else b)"

fun fmt_json :: "externals \<Rightarrow> json \<Rightarrow> string" where
  "fmt_json env (JStr s) = s"
| "fmt_json env v = py_repr env v"

text \<open>
  Lines 264 to 278: the two turns appended after a command ran. \<open>assistant_turn\<close> is
  the first one for a string \<open>shown\<close>; the case of \<^verbatim>\<open>None\<close> is in \<open>agent_iteration\<close>.
\<close>

definition assistant_turn :: "string \<Rightarrow> message" where
  "assistant_turn shown =
     \<lparr>author_role = ASSISTANT, author_name = None, channel = Some ''commentary'',
      recipient = Some ''functions.execute_bash'', content = [TextContent shown]\<rparr>"

definition tool_turn :: "externals \<Rightarrow> json \<Rightarrow> int \<Rightarrow> string \<Rightarrow> message" where
  "tool_turn env command return_code output =
     (let tool_result =
            ''Command: '' @ fmt_json env command @ [newline]
            @ ''Exit code: '' @ show_int return_code @ [newline]
            @ ''Output:'' @ [newline] @ output
      in \<lparr>author_role = TOOL, author_name = Some ''functions.execute_bash'',
          channel = Some ''commentary'', recipient = Some ''assistant'',
          content = [TextContent tool_result]\<rparr>)"

text \<open>Lines 290 to 293: the turn appended for an answer, a string that is not empty.\<close>

definition final_turn :: "string \<Rightarrow> message" where
  "final_turn answer =
     \<lparr>author_role = ASSISTANT, author_name = None, channel = Some ''final'',
      recipient = None, content = [TextContent answer]\<rparr>"

text \<open>
  The state the loop carries: the conversation and \<^verbatim>\<open>final_response\<close>. One
  iteration (lines 192 to 297) ends in \<^verbatim>\<open>return None\<close>, in \<^verbatim>\<open>break\<close> or at the
  end of the body; an exception of the sniffer is not caught. After a command ran,
  line 265 builds the assistant turn from \<^verbatim>\<open>content or reasoning\<close>: when that is
  \<^verbatim>\<open>None\<close> (the content is empty or null and the reasoning is null) the constructor
  raises, nothing catches it, and no turn is appended. The final turn is built only
  \<^verbatim>\<open>if final_response\<close>, from a string that is not empty. The printing of
  \<^verbatim>\<open>verbose\<close> is left out.
\<close>

record agent_state =
  conversation :: "message list"
  final_response :: "string option"

datatype step_result = ReturnNone | Break agent_state | Next agent_state

definition agent_iteration :: "externals \<Rightarrow> agent_state \<Rightarrow> py_exn + step_result" where
  "agent_iteration env st =
     (case call_model env (conversation st) of
        Inl e \<Rightarrow> Inr ReturnNone
      | Inr [] \<Rightarrow> Inr ReturnNone
      | Inr (choice0 # others) \<Rightarrow>
          (let msg = choice_message choice0;
               content0 = msg_content msg;
               reasoning = msg_reasoning_content msg
           in case sniff_reply env msg of
                Inl e \<Rightarrow> Inl e
              | Inr command \<Rightarrow>
                  (if truthy command
                   then (case execute_bash_command (subprocess_run env) command default_cwd of
                           Inl e \<Rightarrow> Inl e
                         | Inr (output, return_code) \<Rightarrow>
                             (case text_or content0 reasoning of
                                None \<Rightarrow> raise ValidationError
                              | Some shown \<Rightarrow>
                                  Inr (Next (st\<lparr>conversation :=
                                         conversation st
                                         @ [assistant_turn shown,
                                            tool_turn env command return_code output]\<rparr>))))
                   else (let final = text_or content0 reasoning;
                             st' = st\<lparr>final_response := final,
                                      conversation :=
                                        (case final of
                                           Some answer \<Rightarrow>
                                             (if answer \<noteq> []
                                              then conversation st @ [final_turn answer]
                                              else conversation st)
                                         | None \<Rightarrow> conversation st)\<rparr>
                         in if finish_reason choice0 = Some ''stop''
                            then Inr (Break st')
                            else Inr (Next st')))))"

text \<open>
  The \<^verbatim>\<open>for\<close> loop over \<^verbatim>\<open>range(max_iterations)\<close>. The result keeps, beside the
  value returned, the number of iterations begun and the conversation at the end.
\<close>

record agent_result =
  returned :: "string option"
  iterations :: nat
  final_log :: "message list"

function agent_loop :: "externals \<Rightarrow> int \<Rightarrow> nat \<Rightarrow> agent_state \<Rightarrow> py_exn + agent_result" where
  "agent_loop env max_iterations iteration st =
     (if int iteration < max_iterations
      then (case agent_iteration env st of
              Inl e \<Rightarrow> Inl e
            | Inr ReturnNone \<Rightarrow>
                Inr \<lparr>returned = None, iterations = Suc iteration,
                     final_log = conversation st\<rparr>
            | Inr (Break st') \<Rightarrow>
                Inr \<lparr>returned = final_response st', iterations = Suc iteration,
                     final_log = conversation st'\<rparr>
            | Inr (Next st') \<Rightarrow> agent_loop env max_iterations (Suc iteration) st')
      else Inr \<lparr>returned = final_response st, iterations = iteration,
                final_log = conversation st\<rparr>)"
  by pat_completeness auto
termination
  by (relation "measure (\<lambda>(env, max_iterations, iteration, st). nat (max_iterations - int iteration))")
     auto

declare agent_loop.simps [simp del]

definition run_bash_agent :: "externals \<Rightarrow> string \<Rightarrow> int \<Rightarrow> py_exn + agent_result" where
  "run_bash_agent env user_task max_iterations =
     agent_loop env max_iterations 0
       \<lparr>conversation = initial_messages user_task, final_response = None\<rparr>"

text \<open>
  The turns the loop adds, as the specification describes the log: a turn sent to
  the tool, the tool's turn, a turn tagged "final". \<open>loop_turns\<close> holds of a list made
  of final turns and of pairs of a turn sent to the tool and the tool's turn.
\<close>

definition is_call_turn :: "message \<Rightarrow> bool" where
  "is_call_turn m =
     (author_role m = ASSISTANT \<and> channel m = Some ''commentary''
      \<and> recipient m = Some ''functions.execute_bash'')"

definition is_tool_turn :: "message \<Rightarrow> bool" where
  "is_tool_turn m =
     (author_role m = TOOL \<and> author_name m = Some ''functions.execute_bash''
      \<and> channel m = Some ''commentary'' \<and> recipient m = Some ''assistant'')"

definition is_final_turn :: "message \<Rightarrow> bool" where
  "is_final_turn m = (author_role m = ASSISTANT \<and> channel m = Some ''final'')"

fun loop_turns :: "message list \<Rightarrow> bool" where
  "loop_turns [] = True"
| "loop_turns [m] = is_final_turn m"
| "loop_turns (m # m' # ms) =
     (if is_final_turn m then loop_turns (m' # ms)
      else is_call_turn m \<and> is_tool_turn m' \<and> loop_turns ms)"

section \<open>Concrete runs used below\<close>

text \<open>
  A subprocess that times out, one that cannot be started, and
  \<^verbatim>\<open>echo "  hello"\<close>, which prints two blanks, the word and a newline.
\<close>

definition run_times_out :: subprocess_run where
  "run_times_out command cwd = Inl (Exn TimeoutExpired [])"

definition run_fails_to_start :: subprocess_run where
  "run_fails_to_start command cwd = Inl (Exn OtherException ''No such file or directory'')"

definition run_echo_indented :: subprocess_run where
  "run_echo_indented command cwd =
     Inr \<lparr>stdout = ''  hello'' @ [newline], stderr = [], returncode = 0\<rparr>"

text \<open>
  Concrete surroundings for the examples. \<open>demo_loads\<close> is \<^verbatim>\<open>json.loads\<close> on the
  texts the examples hand to it: the JSON texts listed, and \<open>None\<close> on the others,
  none of which is JSON. \<open>demo_hdl\<close> takes a text holding \<^verbatim>\<open>endmodule\<close> for
  hardware-description source. \<open>demo_findall\<close> is the code-block search on the one
  fenced text used, \<open>fenced_ls\<close>, and finds nothing elsewhere; \<^verbatim>\<open>re.sub\<close> leaves the
  examples' texts as they are, since none holds a marker where the regex scan runs.
  \<open>decodes_to msgs\<close> is a decoder that returns the messages \<open>msgs\<close>.
\<close>

definition demo_loads :: "string \<Rightarrow> json option" where
  \<open>demo_loads s =
     (if s = ''{"cmd": ["ls", "ls -la"]}''
        then Some (JObj [(''cmd'', JArr [JStr ''ls'', JStr ''ls -la''])])
      else if s = ''{"cmd": ["module top; endmodule"]}''
        then Some (JObj [(''cmd'', JArr [JStr ''module top; endmodule''])])
      else if s = ''{"command": ""}'' then Some (JObj [(''command'', JStr [])])
      else if s = ''{"command": "ls"}'' then Some (JObj [(''command'', JStr ''ls'')])
      else if s = ''{"command": "pwd"}'' then Some (JObj [(''command'', JStr ''pwd'')])
      else if s = ''42'' then Some (JNum 42)
      else None)\<close>

definition demo_hdl :: "json \<Rightarrow> py_exn + bool" where
  "demo_hdl v = (case v of JStr s \<Rightarrow> Inr (contains ''endmodule'' s) | other \<Rightarrow> Inr False)"

definition fenced_ls :: string where
  "fenced_ls = ''```bash'' @ [newline] @ ''ls'' @ [newline] @ ''```''"

definition demo_findall :: "string \<Rightarrow> string \<Rightarrow> string list" where
  "demo_findall pattern text0 =
     (if pattern = code_block_pattern \<and> text0 = fenced_ls then [''ls''] else [])"

definition demo_env :: "(role option \<Rightarrow> string \<Rightarrow> py_exn + message list) \<Rightarrow> externals" where
  "demo_env decode =
     \<lparr>harmony_decode = decode,
      json_loads = demo_loads,
      looks_like_hdl_code = demo_hdl,
      looks_like_shell_command = (\<lambda>s. Inr False),
      re_sub = (\<lambda>pattern repl text0. text0),
      re_findall = demo_findall,
      subprocess_run = (\<lambda>command cwd. Inr \<lparr>stdout = [], stderr = [], returncode = 0\<rparr>),
      py_repr = (\<lambda>v. []),
      call_model = (\<lambda>conv. Inr [])\<rparr>"

definition channel_message :: "string \<Rightarrow> string \<Rightarrow> message" where
  "channel_message ch t =
     \<lparr>author_role = ASSISTANT, author_name = None, channel = Some ch, recipient = None,
      content = [TextContent t]\<rparr>"

definition decodes_to :: "message list \<Rightarrow> role option \<Rightarrow> string \<Rightarrow> py_exn + message list" where
  "decodes_to msgs r t = Inr msgs"

definition final_only_text :: string where
  "final_only_text = ''<|channel|>final<|message|>All done.<|end|>''"

definition final_only_env :: externals where
  "final_only_env = demo_env (decodes_to [channel_message ''final'' ''All done.''])"

definition empty_decode_env :: externals where
  "empty_decode_env = demo_env (decodes_to [])"

text \<open>
  Decoded messages for the examples of the analysis channel: a JSON command list
  whose last element is hardware-description source, alone and followed by a
  message on the channel \<^verbatim>\<open>bash\<close>; the list \<^verbatim>\<open>["ls", "ls -la"]\<close>, alone and
  after a message on the channel \<^verbatim>\<open>bash\<close>. \<open>looping_text\<close> has eleven call markers,
  with text between the tenth and the eleventh.
\<close>

definition hdl_json_text :: string where
  \<open>hdl_json_text = ''{"cmd": ["module top; endmodule"]}''\<close>


definition hdl_then_bash_env :: externals where
  "hdl_then_bash_env =
     demo_env (decodes_to [channel_message ''analysis'' hdl_json_text,
                           channel_message ''bash'' ''ls''])"

definition hdl_then_bash_text :: string where
  "hdl_then_bash_text =
     ''<|channel|>analysis<|message|>'' @ hdl_json_text
     @ ''<|end|><|start|>assistant<|channel|>bash<|message|>ls<|end|>''"

definition hdl_only_env :: externals where
  "hdl_only_env = demo_env (decodes_to [channel_message ''analysis'' hdl_json_text])"

definition hdl_only_text :: string where
  "hdl_only_text = ''<|channel|>analysis<|message|>'' @ hdl_json_text @ ''<|end|>''"





definition looping_text :: string where
  "looping_text = ''ls'' @ concat (replicate 10 call_token) @ ''pwd'' @ call_token"

text \<open>
  Replies for the examples: a reply whose only tool call has an empty command and
  whose content is a JSON command; a reply with two shell tool calls; a reply with
  one. \<open>text_choice c reason\<close> is a choice with the content \<open>c\<close>, no reasoning, no tool
  call and the finish reason \<open>reason\<close>. \<open>scripted table\<close> is an endpoint that answers a
  conversation of \<open>n\<close> turns with the choice the table gives for \<open>n\<close>, and with no
  choice otherwise. The subprocess of these examples prints nothing and exits
  with 0.
\<close>

definition bash_call :: "string \<Rightarrow> tool_call" where
  "bash_call arguments = \<lparr>function_name = ''execute_bash'', function_arguments = JStr arguments\<rparr>"

definition empty_command_reply :: reply_message where
  \<open>empty_command_reply =
     \<lparr>msg_content = Some ''{"command": "ls"}'', msg_reasoning_content = Some [],
      msg_tool_calls = [bash_call ''{"command": ""}'']\<rparr>\<close>

definition two_calls_reply :: reply_message where
  \<open>two_calls_reply =
     \<lparr>msg_content = None, msg_reasoning_content = Some [],
      msg_tool_calls = [bash_call ''{"command": "ls"}'', bash_call ''{"command": "pwd"}'']\<rparr>\<close>

definition one_call_reply :: reply_message where
  \<open>one_call_reply =
     \<lparr>msg_content = None, msg_reasoning_content = Some [],
      msg_tool_calls = [bash_call ''{"command": "ls"}'']\<rparr>\<close>

definition plain_env :: externals where
  "plain_env = demo_env (decodes_to [])"

definition text_choice :: "string \<Rightarrow> string \<Rightarrow> choice" where
  "text_choice c reason =
     \<lparr>choice_message = \<lparr>msg_content = Some c, msg_reasoning_content = Some [],
                         msg_tool_calls = []\<rparr>,
      finish_reason = Some reason\<rparr>"

definition call_choice :: choice where
  "call_choice = \<lparr>choice_message = one_call_reply, finish_reason = Some ''tool_calls''\<rparr>"

definition scripted :: "(nat \<times> choice) list \<Rightarrow> message list \<Rightarrow> py_exn + choice list" where
  "scripted table conv =
     (case map_of table (length conv) of
        Some ch \<Rightarrow> Inr [ch]
      | None \<Rightarrow> Inr [])"

definition scripted_env :: "(nat \<times> choice) list \<Rightarrow> externals" where
  "scripted_env table = plain_env\<lparr>call_model := scripted table\<rparr>"

definition number_reply_env :: externals where
  "number_reply_env = scripted_env [(3, text_choice ''42'' ''stop'')]"

definition two_step_env :: externals where
  "two_step_env = scripted_env [(3, call_choice), (5, text_choice ''The directory is empty.'' ''stop'')]"

definition three_step_env :: externals where
  "three_step_env =
     scripted_env [(3, call_choice),
                   (5, text_choice ''Let me look at the output.'' ''length''),
                   (6, text_choice ''The directory is empty.'' ''stop'')]"

definition answer_env :: externals where
  "answer_env = scripted_env [(3, text_choice ''Done.'' ''stop'')]"

definition silent_env :: externals where
  "silent_env = scripted_env [(3, text_choice [] ''stop'')]"

definition after_ls :: "externals \<Rightarrow> string \<Rightarrow> message list" where
  "after_ls env user_task =
     initial_messages user_task
     @ [assistant_turn [], tool_turn env (JStr ''ls'') 0 []]"

section \<open>Strings: what stripping removes\<close>

lemma lstrip_decomp: "\<exists>pre. s = pre @ lstrip s \<and> (\<forall>c\<in>set pre. is_space c)"
proof -
  have "s = takeWhile is_space s @ lstrip s"
    by (simp add: lstrip_def)
  moreover have "\<forall>c\<in>set (takeWhile is_space s). is_space c"
    by (auto dest: set_takeWhileD)
  ultimately show ?thesis by blast
qed

lemma rstrip_decomp: "\<exists>post. s = rstrip s @ post \<and> (\<forall>c\<in>set post. is_space c)"
proof -
  have "rev s = takeWhile is_space (rev s) @ dropWhile is_space (rev s)"
    by simp
  then have "s = rev (dropWhile is_space (rev s)) @ rev (takeWhile is_space (rev s))"
    by (metis rev_append rev_rev_ident)
  moreover have "\<forall>c\<in>set (rev (takeWhile is_space (rev s))). is_space c"
    by (auto dest: set_takeWhileD)
  ultimately show ?thesis
    unfolding rstrip_def by blast
qed

lemma lstrip_hd: "lstrip s \<noteq> [] \<Longrightarrow> \<not> is_space (hd (lstrip s))"
  unfolding lstrip_def by (rule hd_dropWhile)

lemma rstrip_last: "rstrip s \<noteq> [] \<Longrightarrow> \<not> is_space (last (rstrip s))"
  unfolding rstrip_def by (simp add: last_rev hd_dropWhile)

lemma rstrip_hd: "rstrip s \<noteq> [] \<Longrightarrow> hd (rstrip s) = hd s"
  using rstrip_decomp[of s] by (metis hd_append2)

lemma strip_decomp:
  "\<exists>pre post. s = pre @ strip s @ post
     \<and> (\<forall>c\<in>set pre. is_space c) \<and> (\<forall>c\<in>set post. is_space c)"
proof -
  obtain pre where 1: "s = pre @ lstrip s" "\<forall>c\<in>set pre. is_space c"
    using lstrip_decomp by blast
  obtain post where 2: "lstrip s = rstrip (lstrip s) @ post" "\<forall>c\<in>set post. is_space c"
    using rstrip_decomp by blast
  from 1 2 have "s = pre @ strip s @ post"
    by (simp add: strip_def)
  with 1 2 show ?thesis by blast
qed

lemma strip_ends:
  "strip s \<noteq> [] \<Longrightarrow> \<not> is_space (hd (strip s)) \<and> \<not> is_space (last (strip s))"
  unfolding strip_def
  using rstrip_hd[of "lstrip s"] rstrip_last[of "lstrip s"] lstrip_hd[of s]
  by (metis rstrip_def rev.simps(1) dropWhile.simps(1) rev_rev_ident)

lemma strip_hello: "strip (''  hello'' @ [newline]) = ''hello''"
  by (simp add: strip_def lstrip_def rstrip_def is_space_def newline_def)

section \<open>The shell executor\<close>

text \<open>
  C3. For every command and working directory the executor returns a result and
  raises nothing: when the subprocess call raises \<^verbatim>\<open>TimeoutExpired\<close> the result is
  the text "Error: Command timed out after 30 seconds" with exit code -1, and when it
  raises any other exception the result is "Error: " followed by the exception's
  text, with exit code -1.
\<close>

theorem execute_bash_command_never_raises:
  "(\<exists>out code. execute_bash_command run command cwd = Inr (out, code))
   \<and> (\<forall>e. run command cwd = Inl e \<and> exn_cls e = TimeoutExpired
         \<longrightarrow> execute_bash_command run command cwd
             = Inr (''Error: Command timed out after 30 seconds'', - 1))
   \<and> (\<forall>e. run command cwd = Inl e \<and> exn_cls e \<noteq> TimeoutExpired
         \<longrightarrow> execute_bash_command run command cwd = Inr (''Error: '' @ exn_str e, - 1))"
  by (cases "run command cwd") (simp_all add: execute_bash_command_def Let_def)

theorem execute_bash_command_never_raises_witness:
  "run_times_out (JStr ''sleep 60'') default_cwd = Inl (Exn TimeoutExpired [])
   \<and> execute_bash_command run_times_out (JStr ''sleep 60'') default_cwd
       = Inr (''Error: Command timed out after 30 seconds'', - 1)
   \<and> run_fails_to_start (JStr ''ls'') ''/nowhere''
       = Inl (Exn OtherException ''No such file or directory'')
   \<and> execute_bash_command run_fails_to_start (JStr ''ls'') ''/nowhere''
       = Inr (''Error: No such file or directory'', - 1)"
  using execute_bash_command_never_raises [of run_times_out "JStr ''sleep 60''" default_cwd]
        execute_bash_command_never_raises [of run_fails_to_start "JStr ''ls''" "''/nowhere''"]
  by (simp add: run_times_out_def run_fails_to_start_def)

text \<open>
  C7, as the claim states it, fails: the claim trims trailing whitespace only, and
  \<^verbatim>\<open>output.strip()\<close> trims both ends. For \<^verbatim>\<open>echo "  hello"\<close> the executor returns
  "hello", not the output with its two leading blanks kept.
\<close>

theorem execute_bash_command_rstrip_counterexample:
  "execute_bash_command run_echo_indented (JStr ''echo'') default_cwd = Inr (''hello'', 0)
   \<and> rstrip (stdout \<lparr>stdout = ''  hello'' @ [newline], stderr = [], returncode = 0\<rparr>
              @ stderr \<lparr>stdout = ''  hello'' @ [newline], stderr = [], returncode = 0\<rparr>)
       = ''  hello''
   \<and> ''hello'' \<noteq> ''  hello''"
proof -
  have "execute_bash_command run_echo_indented (JStr ''echo'') default_cwd
          = Inr (strip (''  hello'' @ [newline]), 0)"
    by (simp add: execute_bash_command_def run_echo_indented_def Let_def)
  then have "execute_bash_command run_echo_indented (JStr ''echo'') default_cwd
          = Inr (''hello'', 0)"
    by (simp only: strip_hello)
  moreover have "rstrip (''  hello'' @ [newline]) = ''  hello''"
    by (simp add: rstrip_def is_space_def newline_def)
  ultimately show ?thesis by simp
qed

text \<open>
  C7, amended. For every subprocess run that completes normally, the executor
  returns the standard output followed by the standard error, with the whitespace
  at both ends removed (the rest unchanged), and the process's exit code.
\<close>

theorem execute_bash_command_output:
  assumes "run command cwd = Inr result"
  shows "execute_bash_command run command cwd
           = Inr (strip (stdout result @ stderr result), returncode result)
         \<and> (\<exists>pre post.
               stdout result @ stderr result = pre @ strip (stdout result @ stderr result) @ post
               \<and> (\<forall>c\<in>set pre. is_space c) \<and> (\<forall>c\<in>set post. is_space c))
         \<and> (strip (stdout result @ stderr result) \<noteq> []
              \<longrightarrow> \<not> is_space (hd (strip (stdout result @ stderr result)))
                  \<and> \<not> is_space (last (strip (stdout result @ stderr result))))"
proof -
  have "execute_bash_command run command cwd
          = Inr (strip (stdout result @ stderr result), returncode result)"
    using assms by (simp add: execute_bash_command_def Let_def)
  then show ?thesis
    using strip_decomp [of "stdout result @ stderr result"]
          strip_ends [of "stdout result @ stderr result"]
    by blast
qed

theorem execute_bash_command_output_witness:
  "run_echo_indented (JStr ''echo'') default_cwd
     = Inr \<lparr>stdout = ''  hello'' @ [newline], stderr = [], returncode = 0\<rparr>
   \<and> execute_bash_command run_echo_indented (JStr ''echo'') default_cwd = Inr (''hello'', 0)"
proof -
  have h: "run_echo_indented (JStr ''echo'') default_cwd
             = Inr \<lparr>stdout = ''  hello'' @ [newline], stderr = [], returncode = 0\<rparr>"
    by (simp add: run_echo_indented_def)
  have "execute_bash_command run_echo_indented (JStr ''echo'') default_cwd
          = Inr (strip (''  hello'' @ [newline]), 0)"
    using h execute_bash_command_output
            [of run_echo_indented "JStr ''echo''" default_cwd
                "\<lparr>stdout = ''  hello'' @ [newline], stderr = [], returncode = 0\<rparr>"]
    by simp
  then show ?thesis
    using h by (simp only: strip_hello simp_thms)
qed

section \<open>The text sniffer\<close>

lemma scan_messages_append:
  "scan_messages env (pre @ rest) h =
     (case scan_messages env pre h of
        Inr (Finished h') \<Rightarrow> scan_messages env rest h'
      | Inr (Return c) \<Rightarrow> Inr (Return c)
      | Inl e \<Rightarrow> Inl e)"
  by (induction pre arbitrary: h) (auto split: sum.splits scan_result.splits)

lemma extract_total: "\<exists>r. extract_command_from_text env text0 = Inr r"
  by (auto simp: extract_command_from_text_def Let_def split: sum.splits harmony_outcome.splits)

lemma harmony_path_decoded:
  assumes "harmony_decode env (Some ASSISTANT) (harmony_input text0) = Inr msgs"
  shows "harmony_path env text0 =
           (case scan_messages env msgs False of
              Inl e \<Rightarrow> Inl e
            | Inr (Return command) \<Rightarrow> Inr (Found command)
            | Inr (Finished hdl) \<Rightarrow> (if msgs \<noteq> [] \<or> hdl then Inr NoCommand else Inr FallThrough))"
  using assms by (simp add: harmony_path_def)

lemma strip_fenced_ls: "strip fenced_ls = fenced_ls"
  by (simp add: fenced_ls_def strip_def lstrip_def rstrip_def is_space_def newline_def)

lemma strip_ls: "strip ''ls'' = ''ls''"
  by (simp add: strip_def lstrip_def rstrip_def is_space_def)

lemma fenced_ls_not_empty: "fenced_ls \<noteq> []"
  by (simp add: fenced_ls_def)

lemma strip_final_only_text: "strip final_only_text \<noteq> []"
  by (simp add: final_only_text_def strip_def lstrip_def rstrip_def is_space_def)

text \<open>
  C2, as the claim states it, fails: a decoder that runs without raising and
  returns no message at all yields zero commands, yet the test of line 119
  (\<^verbatim>\<open>if parsed_messages or hdl_detected_in_json\<close>) is then false and the regex scan
  runs. On a fenced \<^verbatim>\<open>ls\<close> the sniffer returns \<^verbatim>\<open>ls\<close>, found by the regex.
\<close>

theorem fallback_after_empty_decode_counterexample:
  "harmony_decode empty_decode_env (Some ASSISTANT) (harmony_input fenced_ls) = Inr []
   \<and> scan_messages empty_decode_env [] False = Inr (Finished False)
   \<and> fallback_reached empty_decode_env fenced_ls
   \<and> extract_command_from_text empty_decode_env fenced_ls = Inr (Some (JStr ''ls''))"
proof -
  have d: "harmony_decode empty_decode_env (Some ASSISTANT) (harmony_input fenced_ls) = Inr []"
    by (simp add: empty_decode_env_def demo_env_def decodes_to_def)
  then have hp: "harmony_path empty_decode_env fenced_ls = Inr FallThrough"
    by (simp add: harmony_path_def)
  have fb: "fallback_scan empty_decode_env fenced_ls = Some (JStr ''ls'')"
    by (simp add: fallback_scan_def empty_decode_env_def demo_env_def Let_def strip_fenced_ls
          fenced_ls_not_empty demo_findall_def join_blocks_def strip_ls)
  show ?thesis
    using d hp fb
    by (simp add: fallback_reached_def extract_command_from_text_def Let_def strip_fenced_ls
          fenced_ls_not_empty)
qed

text \<open>
  C2, amended. On a text that is not blank, the regex scan is reached exactly when
  the decoding block raised (the decoder is unavailable or fails, or inspecting
  the decoded messages raises) or the decoder returned an empty list of messages;
  the scan's result is then the sniffer's. Whenever the decoder returns at least one
  message and inspecting them ends without a command, the sniffer returns
  "no command" and the regex scan is not reached.
\<close>

theorem fallback_only_after_failure_or_empty_decode:
  assumes "strip text0 \<noteq> []"
  shows "(fallback_reached env text0 \<longleftrightarrow>
            (\<exists>e. harmony_decode env (Some ASSISTANT) (harmony_input text0) = Inl e)
            \<or> harmony_decode env (Some ASSISTANT) (harmony_input text0) = Inr []
            \<or> (\<exists>msgs e. harmony_decode env (Some ASSISTANT) (harmony_input text0) = Inr msgs
                  \<and> scan_messages env msgs False = Inl e))
         \<and> (fallback_reached env text0
              \<longrightarrow> extract_command_from_text env text0 = Inr (fallback_scan env (strip text0)))
         \<and> (\<forall>msgs hdl. harmony_decode env (Some ASSISTANT) (harmony_input text0) = Inr msgs
               \<and> msgs \<noteq> [] \<and> scan_messages env msgs False = Inr (Finished hdl)
               \<longrightarrow> extract_command_from_text env text0 = Inr None
                   \<and> \<not> fallback_reached env text0)"
proof (cases "harmony_decode env (Some ASSISTANT) (harmony_input text0)")
  case (Inl e)
  then have "harmony_path env text0 = Inl e" by (simp add: harmony_path_def)
  with assms Inl show ?thesis
    by (simp add: fallback_reached_def extract_command_from_text_def Let_def)
next
  case (Inr msgs)
  note hp = harmony_path_decoded [OF Inr]
  show ?thesis
  proof (cases "scan_messages env msgs False")
    case (Inl e)
    with hp assms Inr show ?thesis
      by (auto simp add: fallback_reached_def extract_command_from_text_def Let_def)
  next
    case scan: (Inr r)
    show ?thesis
    proof (cases r)
      case (Return c)
      with hp assms Inr scan show ?thesis
        by (auto simp add: fallback_reached_def extract_command_from_text_def Let_def)
    next
      case (Finished hdl)
      show ?thesis
      proof (cases "msgs = []")
        case True
        with hp assms Inr scan Finished show ?thesis
          by (auto simp add: fallback_reached_def extract_command_from_text_def Let_def)
      next
        case False
        with hp assms Inr scan Finished show ?thesis
          by (auto simp add: fallback_reached_def extract_command_from_text_def Let_def)
      qed
    qed
  qed
qed


theorem fallback_only_after_failure_or_empty_decode_witness:
  "strip final_only_text \<noteq> []
   \<and> harmony_decode final_only_env (Some ASSISTANT) (harmony_input final_only_text)
       = Inr [channel_message ''final'' ''All done.'']
   \<and> scan_messages final_only_env [channel_message ''final'' ''All done.''] False
       = Inr (Finished False)
   \<and> extract_command_from_text final_only_env final_only_text = Inr None
   \<and> \<not> fallback_reached final_only_env final_only_text"
proof -
  have d: "harmony_decode final_only_env (Some ASSISTANT) (harmony_input final_only_text)
             = Inr [channel_message ''final'' ''All done.'']"
    by (simp add: final_only_env_def demo_env_def decodes_to_def)
  have s: "scan_messages final_only_env [channel_message ''final'' ''All done.''] False
             = Inr (Finished False)"
    by (simp add: final_only_env_def demo_env_def process_message_def analysis_step_def
          final_step_def channel_message_def demo_findall_def fenced_ls_def Let_def)
  show ?thesis
    using fallback_only_after_failure_or_empty_decode
            [OF strip_final_only_text, of final_only_env] d s strip_final_only_text
    by blast
qed

lemma py_in_key:
  "map_of kvs key = Some v \<Longrightarrow> py_in key (JObj kvs) = Inr True"
proof -
  assume "map_of kvs key = Some v"
  then have "(key, v) \<in> set kvs"
    by (rule map_of_SomeD)
  then have "key \<in> fst ` set kvs"
    by force
  then show ?thesis
    by simp
qed

lemma analysis_items_cmd_list:
  assumes "json_loads env t = Some (JObj kvs)"
    and "map_of kvs ''cmd'' = Some (JArr cmd_list)"
    and "cmd_list \<noteq> []"
    and "last cmd_list = JStr c"
    and "looks_like_hdl_code env (JStr c) = Inr b"
  shows "analysis_items env (TextContent t # rest)
           = Inr (if b then ABreak else AReturn (JStr c))"
  using assms py_in_key [of kvs "''cmd''" "JArr cmd_list"]
  by (simp add: Let_def)

lemma process_analysis_message:
  assumes "channel m = Some ''analysis''"
    and "content m = TextContent t # rest"
    and "json_loads env t = Some (JObj kvs)"
    and "map_of kvs ''cmd'' = Some (JArr cmd_list)"
    and "cmd_list \<noteq> []"
    and "last cmd_list = JStr c"
    and "looks_like_hdl_code env (JStr c) = Inr b"
  shows "process_message env m h
           = Inr (if b then Finished True else Return (JStr c))"
  using assms(1,2) analysis_items_cmd_list [OF assms(3-7), of rest]
  by (simp add: process_message_def analysis_step_def final_step_def)

lemma extract_decoded:
  assumes "strip text0 \<noteq> []"
    and "harmony_decode env (Some ASSISTANT) (harmony_input text0) = Inr msgs"
  shows "extract_command_from_text env text0 =
           (case scan_messages env msgs False of
              Inl e \<Rightarrow> Inr (fallback_scan env (strip text0))
            | Inr (Return command) \<Rightarrow> Inr (Some command)
            | Inr (Finished hdl) \<Rightarrow>
                (if msgs \<noteq> [] \<or> hdl then Inr None
                 else Inr (fallback_scan env (strip text0))))"
  using assms
  by (simp add: extract_command_from_text_def Let_def harmony_path_decoded
        split: sum.splits scan_result.splits)

lemma strip_not_blank: "\<exists>c\<in>set s. \<not> is_space c \<Longrightarrow> strip s \<noteq> []"
proof
  assume a: "\<exists>c\<in>set s. \<not> is_space c" and e: "strip s = []"
  obtain pre post where "s = pre @ strip s @ post"
    "\<forall>c\<in>set pre. is_space c" "\<forall>c\<in>set post. is_space c"
    using strip_decomp by blast
  with e have "\<forall>c\<in>set s. is_space c"
    by (metis Un_iff append_Nil set_append)
  with a show False by blast
qed

lemma starts_not_blank: "\<not> is_space c \<Longrightarrow> strip (c # cs) \<noteq> []"
  by (rule strip_not_blank) auto

lemma less_than_not_space: "\<not> is_space CHR ''<''"
  by (simp add: is_space_def)

lemma demo_loads_hdl:
  "demo_loads hdl_json_text = Some (JObj [(''cmd'', JArr [JStr ''module top; endmodule''])])"
  by (simp add: demo_loads_def hdl_json_text_def)


lemma demo_hdl_module: "demo_hdl (JStr ''module top; endmodule'') = Inr True"
  by (simp add: demo_hdl_def starts_with_def)



text \<open>
  C4, as the claim states it, fails: after the rejection the loop goes on with the
  next decoded message (the \<^verbatim>\<open>break\<close> of line 90 leaves the loop over the content
  items only). When a later message yields a command, the sniffer returns that
  command, not "no command".
\<close>

theorem hdl_then_later_command_counterexample:
  "harmony_decode hdl_then_bash_env (Some ASSISTANT) (harmony_input hdl_then_bash_text)
     = Inr [channel_message ''analysis'' hdl_json_text, channel_message ''bash'' ''ls'']
   \<and> json_loads hdl_then_bash_env hdl_json_text
       = Some (JObj [(''cmd'', JArr [JStr ''module top; endmodule''])])
   \<and> looks_like_hdl_code hdl_then_bash_env (JStr ''module top; endmodule'') = Inr True
   \<and> extract_command_from_text hdl_then_bash_env hdl_then_bash_text = Inr (Some (JStr ''ls''))
   \<and> extract_command_from_text hdl_then_bash_env hdl_then_bash_text \<noteq> Inr None"
proof -
  have 1: "strip hdl_then_bash_text \<noteq> []"
    by (simp add: hdl_then_bash_text_def starts_not_blank less_than_not_space)
  have 2: "harmony_decode hdl_then_bash_env (Some ASSISTANT) (harmony_input hdl_then_bash_text)
     = Inr [channel_message ''analysis'' hdl_json_text, channel_message ''bash'' ''ls'']"
    by (simp add: hdl_then_bash_env_def demo_env_def decodes_to_def)
  have 6: "json_loads hdl_then_bash_env hdl_json_text
             = Some (JObj [(''cmd'', JArr [JStr ''module top; endmodule''])])"
    by (simp add: hdl_then_bash_env_def demo_env_def demo_loads_hdl)
  have 10: "looks_like_hdl_code hdl_then_bash_env (JStr ''module top; endmodule'') = Inr True"
    by (simp add: hdl_then_bash_env_def demo_env_def demo_hdl_module)
  have pm: "process_message hdl_then_bash_env (channel_message ''analysis'' hdl_json_text) False
              = Inr (Finished True)"
    using process_analysis_message
            [of "channel_message ''analysis'' hdl_json_text" hdl_json_text "[]" hdl_then_bash_env
                "[(''cmd'', JArr [JStr ''module top; endmodule''])]"
                "[JStr ''module top; endmodule'']" "''module top; endmodule''" True False]
          6 10
    by (simp add: channel_message_def)
  have pb: "process_message hdl_then_bash_env (channel_message ''bash'' ''ls'') True
              = Inr (Return (JStr ''ls''))"
    by (simp add: process_message_def channel_message_def strip_ls)
  have "scan_messages hdl_then_bash_env
          [channel_message ''analysis'' hdl_json_text, channel_message ''bash'' ''ls''] False
          = Inr (Return (JStr ''ls''))"
    using pm pb by simp
  then have "extract_command_from_text hdl_then_bash_env hdl_then_bash_text
               = Inr (Some (JStr ''ls''))"
    using extract_decoded [OF 1 2] by simp
  then show ?thesis
    using 2 6 10 by simp
qed

lemma analysis_items_skip:
  "analysis_items env skipped = Inr AExhausted
   \<Longrightarrow> analysis_items env (skipped @ items) = analysis_items env items"
proof (induction env skipped rule: analysis_items.induct)
  case (1 env)
  then show ?case by simp
next
  case (2 env text_content items')
  then show ?case
    by (simp add: Let_def
          split: option.splits sum.splits bool.splits json.splits if_splits)
qed simp_all

lemma process_hdl_message:
  assumes "channel m = Some ''analysis''"
    and "content m = skipped @ TextContent t # rest"
    and "analysis_items env skipped = Inr AExhausted"
    and "json_loads env t = Some (JObj kvs)"
    and "map_of kvs ''cmd'' = Some (JArr cmd_list)"
    and "cmd_list \<noteq> []"
    and "last cmd_list = JStr c"
    and "looks_like_hdl_code env (JStr c) = Inr True"
  shows "process_message env m h = Inr (Finished True)"
proof -
  have "analysis_items env (content m) = Inr ABreak"
    using analysis_items_skip [OF assms(3), of "TextContent t # rest"]
          analysis_items_cmd_list [OF assms(4-8), of rest] assms(2)
    by simp
  then show ?thesis
    using assms(1) by (simp add: process_message_def analysis_step_def final_step_def)
qed

text \<open>
  C4, amended. For a decoded analysis-channel message that the scan reaches (no
  earlier message ended it), with a text item that the scan of the message reaches
  and that is a JSON object with a non-empty list field "cmd" whose last element is
  a text the helper takes for hardware-description source: the sniffer does not
  return that element; it sets the flag, stops inspecting that message and goes on
  with the messages after it, without raising. What it returns is decided by these:
  the command of the first of them that yields one; "no command", without the regex
  scan, when inspecting them ends without a command and without an exception; the
  result of the regex scan when inspecting one of them raises, and only then.
\<close>

theorem hdl_element_rejected:
  assumes "strip text0 \<noteq> []"
    and "harmony_decode env (Some ASSISTANT) (harmony_input text0) = Inr (pre @ m # post)"
    and "scan_messages env pre False = Inr (Finished h)"
    and "channel m = Some ''analysis''"
    and "content m = skipped @ TextContent t # rest"
    and "analysis_items env skipped = Inr AExhausted"
    and "json_loads env t = Some (JObj kvs)"
    and "map_of kvs ''cmd'' = Some (JArr cmd_list)"
    and "cmd_list \<noteq> []"
    and "last cmd_list = JStr c"
    and "looks_like_hdl_code env (JStr c) = Inr True"
  shows "process_message env m h = Inr (Finished True)
         \<and> scan_messages env (pre @ m # post) False = scan_messages env post True
         \<and> extract_command_from_text env text0
             = (case scan_messages env post True of
                  Inr (Return command) \<Rightarrow> Inr (Some command)
                | Inr (Finished hdl) \<Rightarrow> Inr None
                | Inl e \<Rightarrow> Inr (fallback_scan env (strip text0)))
         \<and> (fallback_reached env text0 \<longleftrightarrow> (\<exists>e. scan_messages env post True = Inl e))"
proof -
  have pm: "process_message env m h = Inr (Finished True)"
    using assms(4-11) by (rule process_hdl_message)
  have sc: "scan_messages env (pre @ m # post) False = scan_messages env post True"
    using assms(3) pm by (simp add: scan_messages_append)
  have ex: "extract_command_from_text env text0 =
           (case scan_messages env post True of
              Inr (Return command) \<Rightarrow> Inr (Some command)
            | Inr (Finished hdl) \<Rightarrow> Inr None
            | Inl e \<Rightarrow> Inr (fallback_scan env (strip text0)))"
    using extract_decoded [OF assms(1,2)] sc
    by (simp split: sum.splits scan_result.splits)
  have hp: "harmony_path env text0 =
           (case scan_messages env post True of
              Inl e \<Rightarrow> Inl e
            | Inr (Return command) \<Rightarrow> Inr (Found command)
            | Inr (Finished hdl) \<Rightarrow> Inr NoCommand)"
    using harmony_path_decoded [OF assms(2)] sc
    by (simp split: sum.splits scan_result.splits)
  have fr: "fallback_reached env text0 \<longleftrightarrow> (\<exists>e. scan_messages env post True = Inl e)"
    using assms(1) hp
    by (auto simp: fallback_reached_def split: sum.splits scan_result.splits)
  show ?thesis
    using pm sc ex fr by simp
qed

theorem hdl_element_rejected_witness:
  "strip hdl_only_text \<noteq> []
   \<and> harmony_decode hdl_only_env (Some ASSISTANT) (harmony_input hdl_only_text)
       = Inr ([] @ channel_message ''analysis'' hdl_json_text # [])
   \<and> content (channel_message ''analysis'' hdl_json_text) = [] @ TextContent hdl_json_text # []
   \<and> json_loads hdl_only_env hdl_json_text
       = Some (JObj [(''cmd'', JArr [JStr ''module top; endmodule''])])
   \<and> looks_like_hdl_code hdl_only_env (JStr ''module top; endmodule'') = Inr True
   \<and> process_message hdl_only_env (channel_message ''analysis'' hdl_json_text) False
       = Inr (Finished True)
   \<and> extract_command_from_text hdl_only_env hdl_only_text = Inr None
   \<and> \<not> fallback_reached hdl_only_env hdl_only_text"
proof -
  have 1: "strip hdl_only_text \<noteq> []"
    by (simp add: hdl_only_text_def starts_not_blank less_than_not_space)
  have 2: "harmony_decode hdl_only_env (Some ASSISTANT) (harmony_input hdl_only_text)
             = Inr ([] @ channel_message ''analysis'' hdl_json_text # [])"
    by (simp add: hdl_only_env_def demo_env_def decodes_to_def)
  have 3: "scan_messages hdl_only_env [] False = Inr (Finished False)"
    by simp
  have 4: "channel (channel_message ''analysis'' hdl_json_text) = Some ''analysis''"
    by (simp add: channel_message_def)
  have 5: "content (channel_message ''analysis'' hdl_json_text)
             = [] @ TextContent hdl_json_text # []"
    by (simp add: channel_message_def)
  have 6: "analysis_items hdl_only_env [] = Inr AExhausted"
    by simp
  have 7: "json_loads hdl_only_env hdl_json_text
             = Some (JObj [(''cmd'', JArr [JStr ''module top; endmodule''])])"
    by (simp add: hdl_only_env_def demo_env_def demo_loads_hdl)
  have 8: "map_of [(''cmd'', JArr [JStr ''module top; endmodule''])] ''cmd''
             = Some (JArr [JStr ''module top; endmodule''])"
    by simp
  have 9: "[JStr ''module top; endmodule''] \<noteq> []"
    by simp
  have 10: "last [JStr ''module top; endmodule''] = JStr ''module top; endmodule''"
    by simp
  have 11: "looks_like_hdl_code hdl_only_env (JStr ''module top; endmodule'') = Inr True"
    by (simp add: hdl_only_env_def demo_env_def demo_hdl_module)
  have 12: "scan_messages hdl_only_env [] True = Inr (Finished True)"
    by simp
  note inst = hdl_element_rejected [OF 1 2 3 4 5 6 7 8 9 10 11]
  have a: "process_message hdl_only_env (channel_message ''analysis'' hdl_json_text) False
             = Inr (Finished True)"
    using inst by blast
  have b: "extract_command_from_text hdl_only_env hdl_only_text = Inr None"
    using inst 12 by simp
  have c: "\<not> fallback_reached hdl_only_env hdl_only_text"
    using inst 12 by simp
  show ?thesis
    using 1 2 5 7 11 a b c by blast
qed





text \<open>
  The truncation of a looping text (lines 39 to 46). The text handed to the decoder
  is the input cut just before the eleventh call marker; the sniffer returns a
  result for every text and every behaviour of what it calls.
\<close>

lemma split_not_Nil: "split sep s \<noteq> []"
  by (induction sep s rule: split.induct) (auto split: list.splits)

lemma starts_with_drop:
  "sep \<noteq> [] \<Longrightarrow> starts_with sep (c # cs) \<Longrightarrow> c # cs = sep @ drop (length sep - 1) cs"
proof -
  assume ne: "sep \<noteq> []" and sw: "starts_with sep (c # cs)"
  have "c # cs = take (length sep) (c # cs) @ drop (length sep) (c # cs)"
    by simp
  also have "take (length sep) (c # cs) = sep"
    using sw by (simp add: starts_with_def)
  also have "drop (length sep) (c # cs) = drop (length sep - 1) cs"
    using ne by (cases sep) simp_all
  finally show ?thesis .
qed

lemma join_Cons: "ps \<noteq> [] \<Longrightarrow> join sep (p # ps) = p @ sep @ join sep ps"
  by (cases ps) simp_all

lemma join_split: "sep \<noteq> [] \<Longrightarrow> join sep (split sep s) = s"
proof (induction sep s rule: split.induct)
  case (1 sep)
  then show ?case by simp
next
  case (2 sep c cs)
  show ?case
  proof (cases "starts_with sep (c # cs)")
    case True
    have "c # cs = sep @ drop (length sep - 1) cs"
      using 2 True by (intro starts_with_drop)
    moreover have "join sep (split sep (drop (length sep - 1) cs)) = drop (length sep - 1) cs"
      using 2 True by simp
    moreover have "split sep (c # cs) = [] # split sep (drop (length sep - 1) cs)"
      using True by simp
    moreover have "join sep ([] # split sep (drop (length sep - 1) cs))
                     = sep @ join sep (split sep (drop (length sep - 1) cs))"
      by (simp add: join_Cons split_not_Nil)
    ultimately show ?thesis
      by (simp only:)
  next
    case False
    obtain p ps where sp: "split sep cs = p # ps"
      using split_not_Nil [of sep cs] by (cases "split sep cs") auto
    have "join sep ((c # p) # ps) = c # join sep (p # ps)"
      by (cases ps) simp_all
    with False 2 sp show ?thesis by simp
  qed
qed

lemma length_split: "length (split sep s) = Suc (count sep s)"
  by (induction sep s rule: split.induct) (auto split: list.splits simp: split_not_Nil)

lemma join_take_drop:
  "0 < n \<Longrightarrow> n < length parts \<Longrightarrow>
   join sep parts = join sep (take n parts) @ sep @ join sep (drop n parts)"
proof (induction parts arbitrary: n)
  case Nil
  then show ?case by simp
next
  case (Cons p ps)
  show ?case
  proof (cases n)
    case 0
    with Cons.prems show ?thesis by simp
  next
    case (Suc k)
    show ?thesis
    proof (cases k)
      case 0
      with Suc Cons.prems show ?thesis
        by (cases ps) simp_all
    next
      case (Suc j)
      with \<open>n = Suc k\<close> Cons.prems have "0 < k" "k < length ps" by simp_all
      from Cons.IH [OF this]
      have ih: "join sep ps = join sep (take k ps) @ sep @ join sep (drop k ps)" .
      have ne: "ps \<noteq> []" "take k ps \<noteq> []"
        using \<open>k < length ps\<close> \<open>0 < k\<close> by auto
      show ?thesis
        using \<open>n = Suc k\<close> ih ne by (simp add: join_Cons)
    qed
  qed
qed

lemma harmony_input_cut:
  assumes "count call_token original_text > 10"
  shows "\<exists>rest. original_text = harmony_input original_text @ call_token @ rest"
proof -
  let ?parts = "split call_token original_text"
  have ne: "call_token \<noteq> []" by (simp add: call_token_def)
  have len: "11 < length ?parts"
    using assms by (simp add: length_split)
  have "join call_token ?parts
          = join call_token (take 11 ?parts) @ call_token @ join call_token (drop 11 ?parts)"
    using len by (intro join_take_drop) simp_all
  then have "original_text
          = join call_token (take 11 ?parts) @ call_token @ join call_token (drop 11 ?parts)"
    using ne by (simp add: join_split)
  moreover have "harmony_input original_text = join call_token (take 11 ?parts)"
    using assms by (simp add: harmony_input_def Let_def)
  ultimately show ?thesis by metis
qed


lemma count_looping_text: "count call_token looping_text = 11"
  by code_simp

lemma split_looping_text:
  "split call_token looping_text = [''ls'', [], [], [], [], [], [], [], [], [], ''pwd'', []]"
  by code_simp

lemma harmony_input_looping_text:
  "harmony_input looping_text = ''ls'' @ concat (replicate 10 call_token) @ ''pwd''"
  by code_simp

lemma looping_prefix_differs:
  "''ls'' @ concat (replicate 10 call_token) @ ''pwd'' \<noteq> ''ls'' @ concat (replicate 10 call_token)"
  by simp

text \<open>
  C6. The claim has the text cut at the end of the tenth call marker, as the
  comment of line 41 says; \<^verbatim>\<open>"<|call|>".join(parts[:11])\<close> keeps the eleventh part
  too, the text between the tenth and the eleventh marker. On \<open>looping_text\<close> the
  decoder is handed the ten markers and the \<^verbatim>\<open>pwd\<close> after them.
\<close>

theorem truncation_keeps_text_after_tenth_marker:
  "count call_token looping_text = 11
   \<and> harmony_input looping_text = ''ls'' @ concat (replicate 10 call_token) @ ''pwd''
   \<and> harmony_input looping_text \<noteq> ''ls'' @ concat (replicate 10 call_token)"
  using count_looping_text harmony_input_looping_text looping_prefix_differs
  by simp

section \<open>The agent's sniffer\<close>

lemma tool_calls_loop_append:
  "tool_calls_loop env (pre @ rest) command
     = tool_calls_loop env rest (tool_calls_loop env pre command)"
  by (induction pre arbitrary: command)
     (auto simp: Let_def split: sum.splits json.splits option.splits)

lemma tool_calls_loop_no_shell:
  "\<forall>tc\<in>set tcs. \<not> contains ''bash'' (function_name tc)
   \<Longrightarrow> tool_calls_loop env tcs command = command"
  by (induction tcs arbitrary: command) auto

lemma tool_calls_loop_shell_call:
  assumes "contains ''bash'' (function_name tc)"
    and "function_arguments tc = JStr s \<and> json_loads env s = Some (JObj kvs)
         \<or> function_arguments tc = JObj kvs"
    and "map_of kvs ''command'' = Some v"
  shows "tool_calls_loop env (tc # tcs) command = tool_calls_loop env tcs v"
  using assms by (auto simp: Let_def)

lemma demo_loads_command_empty: \<open>demo_loads ''{"command": ""}'' = Some (JObj [(''command'', JStr [])])\<close>
  by (simp add: demo_loads_def)

lemma demo_loads_command_ls: \<open>demo_loads ''{"command": "ls"}'' = Some (JObj [(''command'', JStr ''ls'')])\<close>
  by (simp add: demo_loads_def)

lemma demo_loads_command_pwd: \<open>demo_loads ''{"command": "pwd"}'' = Some (JObj [(''command'', JStr ''pwd'')])\<close>
  by (simp add: demo_loads_def)

lemma plain_env_loads: "json_loads plain_env = demo_loads"
  by (simp add: plain_env_def demo_env_def)

lemma strip_command_ls: \<open>strip ''{"command": "ls"}'' = ''{"command": "ls"}''\<close>
  by (simp add: strip_def lstrip_def rstrip_def is_space_def)

text \<open>
  C1, as the claim states it, fails. The second path is guarded by
  \<^verbatim>\<open>if not command and content\<close>: a tool call whose "command" is the empty string
  leaves \<open>command\<close> false, the content is parsed and its command \<^verbatim>\<open>ls\<close> is
  returned. And the loop over the tool calls has no \<^verbatim>\<open>break\<close>: of two shell tool
  calls the second one's command is returned, not the first one's.
\<close>

theorem later_paths_after_tool_call_counterexample:
  \<open>after_tool_calls plain_env empty_command_reply = JStr []
   \<and> content_path_entered plain_env empty_command_reply
   \<and> sniff_reply plain_env empty_command_reply = Inr (JStr ''ls'')
   \<and> sniff_reply plain_env two_calls_reply = Inr (JStr ''pwd'')
   \<and> sniff_reply plain_env two_calls_reply \<noteq> Inr (JStr ''ls'')\<close>
proof -
  have 1: "after_tool_calls plain_env empty_command_reply = JStr []"
    by (simp add: after_tool_calls_def empty_command_reply_def bash_call_def
          starts_with_def plain_env_loads demo_loads_command_empty Let_def)
  then have 2: "content_path_entered plain_env empty_command_reply"
    by (simp add: content_path_entered_def) (simp add: empty_command_reply_def)
  have 3: \<open>content_json_path plain_env ''{"command": "ls"}'' (JStr []) = Inr (JStr ''ls'')\<close>
    by (simp add: content_json_path_def plain_env_loads strip_command_ls demo_loads_command_ls)
  have 4: "after_content_json plain_env empty_command_reply = Inr (JStr ''ls'')"
    using 1 2 3 by (simp add: after_content_json_def) (simp add: empty_command_reply_def)
  then have 5: "sniff_reply plain_env empty_command_reply = Inr (JStr ''ls'')"
    by (simp add: sniff_reply_def)
  have 6: "after_tool_calls plain_env two_calls_reply = JStr ''pwd''"
    by (simp add: after_tool_calls_def two_calls_reply_def bash_call_def
          starts_with_def plain_env_loads demo_loads_command_ls
          demo_loads_command_pwd Let_def)
  then have "after_content_json plain_env two_calls_reply = Inr (JStr ''pwd'')"
    by (simp add: after_content_json_def content_path_entered_def)
  then have 7: "sniff_reply plain_env two_calls_reply = Inr (JStr ''pwd'')"
    by (simp add: sniff_reply_def)
  show ?thesis
    using 1 2 5 7 by simp
qed

text \<open>
  C1, amended. For every model response whose only tool call naming the shell
  capability has an argument payload that is (or parses as) a JSON object whose
  "command" field is a non-empty string, the sniffer returns exactly that string,
  and no later extraction path is attempted: neither the bare-JSON content path
  nor the multi-channel path is entered, and the agent's sniffer has no other.
\<close>

theorem only_tool_call_command_returned:
  assumes "msg_tool_calls msg = pre @ tc # post"
    and "contains ''bash'' (function_name tc)"
    and "function_arguments tc = JStr s \<and> json_loads env s = Some (JObj kvs)
         \<or> function_arguments tc = JObj kvs"
    and "map_of kvs ''command'' = Some (JStr c)"
    and "c \<noteq> []"
    and "\<forall>tc'\<in>set pre. \<not> contains ''bash'' (function_name tc')"
    and "\<forall>tc'\<in>set post. \<not> contains ''bash'' (function_name tc')"
  shows "sniff_reply env msg = Inr (JStr c)
         \<and> \<not> content_path_entered env msg
         \<and> \<not> harmony_path_entered env msg"
proof -
  have "tool_calls_loop env (pre @ tc # post) JNull = JStr c"
    using tool_calls_loop_shell_call [OF assms(2,3,4)] tool_calls_loop_no_shell [OF assms(6)]
          tool_calls_loop_no_shell [OF assms(7)]
    by (simp add: tool_calls_loop_append)
  then have atc: "after_tool_calls env msg = JStr c"
    using assms(1) by (simp add: after_tool_calls_def)
  then have cpe: "\<not> content_path_entered env msg"
    using assms(5) by (simp add: content_path_entered_def)
  then have acj: "after_content_json env msg = Inr (JStr c)"
    using atc by (simp add: after_content_json_def)
  then show ?thesis
    using cpe assms(5) by (simp add: sniff_reply_def harmony_path_entered_def)
qed

theorem only_tool_call_command_returned_witness:
  \<open>msg_tool_calls one_call_reply = [] @ bash_call ''{"command": "ls"}'' # []
   \<and> contains ''bash'' (function_name (bash_call ''{"command": "ls"}''))
   \<and> json_loads plain_env ''{"command": "ls"}'' = Some (JObj [(''command'', JStr ''ls'')])
   \<and> sniff_reply plain_env one_call_reply = Inr (JStr ''ls'')
   \<and> \<not> content_path_entered plain_env one_call_reply
   \<and> \<not> harmony_path_entered plain_env one_call_reply\<close>
proof -
  have 1: \<open>msg_tool_calls one_call_reply = [] @ bash_call ''{"command": "ls"}'' # []\<close>
    by (simp add: one_call_reply_def)
  have 2: \<open>contains ''bash'' (function_name (bash_call ''{"command": "ls"}''))\<close>
    by (simp add: bash_call_def starts_with_def)
  have l: \<open>json_loads plain_env ''{"command": "ls"}'' = Some (JObj [(''command'', JStr ''ls'')])\<close>
    by (simp add: plain_env_loads demo_loads_command_ls)
  have 3: \<open>function_arguments (bash_call ''{"command": "ls"}'') = JStr ''{"command": "ls"}''
           \<and> json_loads plain_env ''{"command": "ls"}'' = Some (JObj [(''command'', JStr ''ls'')])
         \<or> function_arguments (bash_call ''{"command": "ls"}'') = JObj [(''command'', JStr ''ls'')]\<close>
    using l by (simp add: bash_call_def)
  have 4: "map_of [(''command'', JStr ''ls'')] ''command'' = Some (JStr ''ls'')"
    by simp
  have 5: "''ls'' \<noteq> []"
    by simp
  have 6: "\<forall>tc'\<in>set []. \<not> contains ''bash'' (function_name tc')"
    by simp
  show ?thesis
    using only_tool_call_command_returned [OF 1 2 3 4 5 6 6] 1 2 l
    by simp
qed


lemma execute_returns: "\<exists>out code. execute_bash_command run command cwd = Inr (out, code)"
  by (cases "run command cwd") (simp_all add: execute_bash_command_def Let_def)

lemma sniff_no_shell_call:
  assumes "\<forall>tc\<in>set (msg_tool_calls msg). \<not> contains ''bash'' (function_name tc)"
  shows "after_tool_calls env msg = JNull"
  using tool_calls_loop_no_shell [OF assms] by (simp add: after_tool_calls_def)

lemma py_in_scalar:
  "v = JNull \<or> (\<exists>b. v = JBool b) \<or> (\<exists>n. v = JNum n) \<Longrightarrow> py_in key v = raise TypeError"
  by auto

lemma strip_42: "strip ''42'' = ''42''"
  by (simp add: strip_def lstrip_def rstrip_def is_space_def)

lemma length_initial_messages: "length (initial_messages t) = 3"
  by (simp add: initial_messages_def)

text \<open>
  C10. For every reply with no tool call naming the shell capability whose content
  is not empty and, stripped, parses as JSON null, a boolean or a number, the
  test \<^verbatim>\<open>"command" in content_json\<close> raises a \<^verbatim>\<open>TypeError\<close> that nothing catches:
  the sniffing step raises it, and so do the iteration and the whole loop.
\<close>

theorem scalar_json_content_raises:
  assumes "\<forall>tc\<in>set (msg_tool_calls msg). \<not> contains ''bash'' (function_name tc)"
    and "msg_content msg = Some c"
    and "c \<noteq> []"
    and "json_loads env (strip c) = Some v"
    and "v = JNull \<or> (\<exists>b. v = JBool b) \<or> (\<exists>n. v = JNum n)"
    and "call_model env (conversation st) = Inr (choice0 # others)"
    and "choice_message choice0 = msg"
    and "int iteration < max_iterations"
  shows "sniff_reply env msg = raise TypeError
         \<and> agent_iteration env st = raise TypeError
         \<and> agent_loop env max_iterations iteration st = raise TypeError"
proof -
  have atc: "after_tool_calls env msg = JNull"
    using assms(1) by (rule sniff_no_shell_call)
  have cpe: "content_path_entered env msg"
    using atc assms(2,3) by (simp add: content_path_entered_def)
  have "content_json_path env c JNull = raise TypeError"
    using assms(4) py_in_scalar [OF assms(5), of "''command''"]
    by (simp add: content_json_path_def raise_def)
  then have "after_content_json env msg = raise TypeError"
    using atc cpe assms(2) by (simp add: after_content_json_def)
  then have sn: "sniff_reply env msg = raise TypeError"
    by (simp add: sniff_reply_def raise_def)
  then have it: "agent_iteration env st = raise TypeError"
    using assms(6,7) by (simp add: agent_iteration_def Let_def raise_def)
  then have "agent_loop env max_iterations iteration st = raise TypeError"
    using assms(8) by (simp add: agent_loop.simps [of env max_iterations iteration st] raise_def)
  with sn it show ?thesis by simp
qed

theorem scalar_json_content_raises_witness:
  "call_model number_reply_env (initial_messages ''count the files'')
     = Inr (text_choice ''42'' ''stop'' # [])
   \<and> msg_content (choice_message (text_choice ''42'' ''stop'')) = Some ''42''
   \<and> json_loads number_reply_env (strip ''42'') = Some (JNum 42)
   \<and> sniff_reply number_reply_env (choice_message (text_choice ''42'' ''stop'')) = raise TypeError
   \<and> run_bash_agent number_reply_env ''count the files'' 5 = raise TypeError"
proof -
  let ?msg = "choice_message (text_choice ''42'' ''stop'')"
  let ?st = "\<lparr>conversation = initial_messages ''count the files'', final_response = None\<rparr>"
  have 1: "\<forall>tc\<in>set (msg_tool_calls ?msg). \<not> contains ''bash'' (function_name tc)"
    by (simp add: text_choice_def)
  have 2: "msg_content ?msg = Some ''42''"
    by (simp add: text_choice_def)
  have 3: "''42'' \<noteq> []"
    by simp
  have 4: "json_loads number_reply_env (strip ''42'') = Some (JNum 42)"
    by (simp add: number_reply_env_def scripted_env_def plain_env_loads strip_42 demo_loads_def)
  have 5: "JNum 42 = JNull \<or> (\<exists>b. JNum 42 = JBool b) \<or> (\<exists>n. JNum 42 = JNum n)"
    by simp
  have 6: "call_model number_reply_env (conversation ?st) = Inr (text_choice ''42'' ''stop'' # [])"
    by (simp add: number_reply_env_def scripted_env_def scripted_def length_initial_messages)
  have 7: "choice_message (text_choice ''42'' ''stop'') = ?msg"
    by simp
  have 8: "int 0 < 5"
    by simp
  show ?thesis
    using scalar_json_content_raises [OF 1 2 3 4 5 6 7 8] 2 4 6
    by (simp add: run_bash_agent_def)
qed


section \<open>The agent loop\<close>


lemma agent_iteration_command:
  assumes "call_model env (conversation st) = Inr (choice0 # others)"
    and "sniff_reply env (choice_message choice0) = Inr command"
    and "truthy command"
    and "execute_bash_command (subprocess_run env) command default_cwd = Inr (output, return_code)"
    and "text_or (msg_content (choice_message choice0))
                 (msg_reasoning_content (choice_message choice0)) = Some shown"
  shows "agent_iteration env st
           = Inr (Next (st\<lparr>conversation :=
                   conversation st
                   @ [assistant_turn shown, tool_turn env command return_code output]\<rparr>))"
  using assms by (simp add: agent_iteration_def Let_def)

text \<open>
  When a command ran and \<^verbatim>\<open>content or reasoning\<close> is \<^verbatim>\<open>None\<close>, building the
  assistant turn raises and the iteration ends in that exception.
\<close>

lemma agent_iteration_nothing_to_show:
  assumes "call_model env (conversation st) = Inr (choice0 # others)"
    and "sniff_reply env (choice_message choice0) = Inr command"
    and "truthy command"
    and "text_or (msg_content (choice_message choice0))
                 (msg_reasoning_content (choice_message choice0)) = None"
  shows "agent_iteration env st = raise ValidationError"
proof -
  obtain out return_code where
    "execute_bash_command (subprocess_run env) command default_cwd = Inr (out, return_code)"
    using execute_returns by blast
  with assms show ?thesis
    by (simp add: agent_iteration_def Let_def)
qed

lemma agent_iteration_answer:
  assumes "call_model env (conversation st) = Inr (choice0 # others)"
    and "sniff_reply env (choice_message choice0) = Inr command"
    and "\<not> truthy command"
    and "final = text_or (msg_content (choice_message choice0))
                         (msg_reasoning_content (choice_message choice0))"
    and "st' = st\<lparr>final_response := final,
                   conversation :=
                     (case final of
                        Some answer \<Rightarrow>
                          (if answer \<noteq> [] then conversation st @ [final_turn answer]
                           else conversation st)
                      | None \<Rightarrow> conversation st)\<rparr>"
  shows "agent_iteration env st
           = (if finish_reason choice0 = Some ''stop'' then Inr (Break st') else Inr (Next st'))"
  using assms by (simp add: agent_iteration_def Let_def)

lemma loop_turns_append: "loop_turns xs \<Longrightarrow> loop_turns ys \<Longrightarrow> loop_turns (xs @ ys)"
proof (induction xs rule: loop_turns.induct)
  case 1
  then show ?case by simp
next
  case (2 m)
  then show ?case by (cases ys) simp_all
next
  case (3 m m' ms)
  then show ?case by (simp split: if_splits)
qed

lemma turn_shapes:
  "is_call_turn (assistant_turn shown)"
  "is_tool_turn (tool_turn env command return_code output)"
  "is_final_turn (final_turn answer)"
  "\<not> is_final_turn (assistant_turn shown)"
  by (simp_all add: is_call_turn_def is_tool_turn_def is_final_turn_def assistant_turn_def
        tool_turn_def final_turn_def Let_def)

lemma agent_iteration_appends:
  assumes "agent_iteration env st = Inr (Next st') \<or> agent_iteration env st = Inr (Break st')"
  shows "\<exists>added. conversation st' = conversation st @ added \<and> loop_turns added"
proof (cases "call_model env (conversation st)")
  case (Inl e)
  with assms show ?thesis by (simp add: agent_iteration_def)
next
  case (Inr choices)
  show ?thesis
  proof (cases choices)
    case Nil
    with Inr assms show ?thesis by (simp add: agent_iteration_def)
  next
    case (Cons choice0 others)
    show ?thesis
    proof (cases "sniff_reply env (choice_message choice0)")
      case (Inl e)
      with Inr Cons assms show ?thesis by (simp add: agent_iteration_def Let_def)
    next
      case sn: (Inr command)
      show ?thesis
      proof (cases "truthy command")
        case True
        obtain out return_code where
          ex: "execute_bash_command (subprocess_run env) command default_cwd
                 = Inr (out, return_code)"
          using execute_returns by blast
        show ?thesis
        proof (cases "text_or (msg_content (choice_message choice0))
                              (msg_reasoning_content (choice_message choice0))")
          case None
          then show ?thesis
            using agent_iteration_nothing_to_show [of env st choice0 others command]
                  Inr Cons sn True assms
            by (simp add: raise_def)
        next
          case (Some shown)
          have "loop_turns [assistant_turn shown, tool_turn env command return_code out]"
            by (simp add: turn_shapes)
          then show ?thesis
            using agent_iteration_command [of env st choice0 others command out return_code shown]
                  Inr Cons sn True ex Some assms
            by auto
        qed
      next
        case False
        define final where "final = text_or (msg_content (choice_message choice0))
                         (msg_reasoning_content (choice_message choice0))"
        define st2 where "st2 = st\<lparr>final_response := final,
                   conversation :=
                     (case final of
                        Some answer \<Rightarrow>
                          (if answer \<noteq> [] then conversation st @ [final_turn answer]
                           else conversation st)
                      | None \<Rightarrow> conversation st)\<rparr>"
        have "agent_iteration env st
           = (if finish_reason choice0 = Some ''stop'' then Inr (Break st2) else Inr (Next st2))"
          using agent_iteration_answer [of env st choice0 others command final st2]
                Inr Cons sn False final_def st2_def
          by simp
        with assms have "st' = st2"
          by (auto split: if_splits)
        then show ?thesis
          by (auto simp: st2_def turn_shapes split: option.splits)
      qed
    qed
  qed
qed

lemma agent_loop_log:
  "agent_loop env max_iterations iteration st = Inr res
   \<Longrightarrow> conversation st = start @ added \<Longrightarrow> loop_turns added
   \<Longrightarrow> \<exists>added'. final_log res = start @ added' \<and> loop_turns added'"
proof (induction env max_iterations iteration st arbitrary: added rule: agent_loop.induct)
  case (1 env max_iterations iteration st)
  show ?case
  proof (cases "int iteration < max_iterations")
    case False
    with "1.prems" show ?thesis
      by (auto simp: agent_loop.simps [of env max_iterations iteration st])
  next
    case True
    show ?thesis
    proof (cases "agent_iteration env st")
      case (Inl e)
      with True "1.prems" show ?thesis
        by (simp add: agent_loop.simps [of env max_iterations iteration st])
    next
      case (Inr step)
      show ?thesis
      proof (cases step)
        case ReturnNone
        with True Inr "1.prems" show ?thesis
          by (auto simp: agent_loop.simps [of env max_iterations iteration st])
      next
        case (Break st')
        then obtain ext where ext: "conversation st' = conversation st @ ext" "loop_turns ext"
          using agent_iteration_appends [of env st st'] Inr by auto
        have "final_log res = conversation st'"
          using True Inr Break "1.prems"(1)
          by (auto simp: agent_loop.simps [of env max_iterations iteration st])
        with ext "1.prems"(2,3) show ?thesis
          by (auto intro: loop_turns_append)
      next
        case (Next st')
        then obtain ext where ext: "conversation st' = conversation st @ ext" "loop_turns ext"
          using agent_iteration_appends [of env st st'] Inr by auto
        have run: "agent_loop env max_iterations (Suc iteration) st' = Inr res"
          using True Inr Next "1.prems"(1)
          by (simp add: agent_loop.simps [of env max_iterations iteration st])
        have "conversation st' = start @ (added @ ext)"
          using ext "1.prems"(2) by simp
        moreover have "loop_turns (added @ ext)"
          using ext "1.prems"(3) by (rule_tac loop_turns_append)
        ultimately show ?thesis
          using "1.IH" [OF True Inr Next run] by blast
      qed
    qed
  qed
qed


lemma agent_loop_next:
  "int iteration < max_iterations \<Longrightarrow> agent_iteration env st = Inr (Next st')
   \<Longrightarrow> agent_loop env max_iterations iteration st
       = agent_loop env max_iterations (Suc iteration) st'"
  by (simp add: agent_loop.simps [of env max_iterations iteration st])

lemma agent_loop_break:
  "int iteration < max_iterations \<Longrightarrow> agent_iteration env st = Inr (Break st')
   \<Longrightarrow> agent_loop env max_iterations iteration st
       = Inr \<lparr>returned = final_response st', iterations = Suc iteration,
              final_log = conversation st'\<rparr>"
  by (simp add: agent_loop.simps [of env max_iterations iteration st])

lemma sniff_plain_text:
  assumes "msg_tool_calls msg = []"
    and "msg_content msg = Some c"
    and "c = [] \<or> json_loads env (strip c) = None"
    and "\<not> contains ''execute_bash''
            (strip (fmt_text (msg_reasoning_content msg) @ [newline] @ c))"
  shows "sniff_reply env msg = Inr JNull"
proof -
  have atc: "after_tool_calls env msg = JNull"
    using assms(1) by (simp add: after_tool_calls_def)
  have "after_content_json env msg = Inr JNull"
    using atc assms(2,3)
    by (auto simp: after_content_json_def content_path_entered_def content_json_path_def)
  then show ?thesis
    using assms(2,4) by (simp add: sniff_reply_def harmony_format_path_def Let_def)
qed

lemma scripted_env_fields:
  "json_loads (scripted_env table) = demo_loads"
  "call_model (scripted_env table) = scripted table"
  "subprocess_run (scripted_env table) = (\<lambda>command cwd. Inr \<lparr>stdout = [], stderr = [], returncode = 0\<rparr>)"
  by (simp_all add: scripted_env_def plain_env_def demo_env_def)

lemma sniff_text_choice:
  assumes "c = [] \<or> demo_loads (strip c) = None"
    and "\<not> contains ''execute_bash'' (strip (newline # c))"
  shows "sniff_reply (scripted_env table) (choice_message (text_choice c reason)) = Inr JNull"
  using assms
  by (intro sniff_plain_text [where c = c]) (simp_all add: text_choice_def scripted_env_fields)

lemma sniff_call_choice:
  "sniff_reply (scripted_env table) (choice_message call_choice) = Inr (JStr ''ls'')"
proof -
  have "after_tool_calls (scripted_env table) one_call_reply = JStr ''ls''"
    by (simp add: after_tool_calls_def one_call_reply_def bash_call_def starts_with_def
          scripted_env_fields demo_loads_command_ls Let_def)
  then have "after_content_json (scripted_env table) one_call_reply = Inr (JStr ''ls'')"
    by (simp add: after_content_json_def content_path_entered_def)
  then show ?thesis
    by (simp add: sniff_reply_def call_choice_def)
qed

lemma execute_scripted:
  "execute_bash_command (subprocess_run (scripted_env table)) command default_cwd = Inr ([], 0)"
  by (simp add: execute_bash_command_def scripted_env_fields Let_def strip_def lstrip_def rstrip_def)

lemma strip_empty_answer:
  "strip (newline # ''The directory is empty.'') = ''The directory is empty.''"
  by (simp add: strip_def lstrip_def rstrip_def is_space_def newline_def)

lemma strip_look_answer:
  "strip (newline # ''Let me look at the output.'') = ''Let me look at the output.''"
  by (simp add: strip_def lstrip_def rstrip_def is_space_def newline_def)

lemma strip_done_answer: "strip (newline # ''Done.'') = ''Done.''"
  by (simp add: strip_def lstrip_def rstrip_def is_space_def newline_def)

lemma strip_empty_answer': "strip ''The directory is empty.'' = ''The directory is empty.''"
  by (simp add: strip_def lstrip_def rstrip_def is_space_def)

lemma strip_look_answer': "strip ''Let me look at the output.'' = ''Let me look at the output.''"
  by (simp add: strip_def lstrip_def rstrip_def is_space_def)

lemma strip_done_answer': "strip ''Done.'' = ''Done.''"
  by (simp add: strip_def lstrip_def rstrip_def is_space_def)

lemma strip_newline: "strip [newline] = []"
  by (simp add: strip_def lstrip_def rstrip_def is_space_def newline_def)

lemma sniff_empty_answer:
  "sniff_reply (scripted_env table)
     (choice_message (text_choice ''The directory is empty.'' reason)) = Inr JNull"
  by (rule sniff_text_choice)
     (simp_all add: strip_empty_answer strip_empty_answer' demo_loads_def starts_with_def)

lemma sniff_look_answer:
  "sniff_reply (scripted_env table)
     (choice_message (text_choice ''Let me look at the output.'' reason)) = Inr JNull"
  by (rule sniff_text_choice)
     (simp_all add: strip_look_answer strip_look_answer' demo_loads_def starts_with_def)

lemma sniff_done_answer:
  "sniff_reply (scripted_env table) (choice_message (text_choice ''Done.'' reason)) = Inr JNull"
  by (rule sniff_text_choice)
     (simp_all add: strip_done_answer strip_done_answer' demo_loads_def starts_with_def)

lemma sniff_silent:
  "sniff_reply (scripted_env table) (choice_message (text_choice [] reason)) = Inr JNull"
  by (rule sniff_text_choice) (simp_all add: strip_newline)


lemma length_after_ls: "length (after_ls env t) = 5"
  by (simp add: after_ls_def length_initial_messages)

lemma call_choice_text:
  "text_or (msg_content (choice_message call_choice))
           (msg_reasoning_content (choice_message call_choice)) = Some []"
  by (simp add: call_choice_def one_call_reply_def text_or_def)

lemma text_choice_text:
  "text_or (msg_content (choice_message (text_choice c reason)))
           (msg_reasoning_content (choice_message (text_choice c reason))) = Some c"
  by (cases c) (simp_all add: text_choice_def text_or_def)

lemma first_step:
  assumes "map_of table 3 = Some call_choice"
  shows "agent_iteration (scripted_env table)
           \<lparr>conversation = initial_messages t, final_response = None\<rparr>
         = Inr (Next \<lparr>conversation = after_ls (scripted_env table) t, final_response = None\<rparr>)"
  using agent_iteration_command
          [of "scripted_env table" "\<lparr>conversation = initial_messages t, final_response = None\<rparr>"
              call_choice "[]" "JStr ''ls''" "[]" 0 "[]"]
        assms
  by (simp add: scripted_env_fields(2) scripted_def length_initial_messages sniff_call_choice
        execute_scripted call_choice_text after_ls_def)

lemma answer_step:
  assumes "map_of table (length conv) = Some (text_choice c reason)"
    and "sniff_reply (scripted_env table) (choice_message (text_choice c reason)) = Inr JNull"
    and "c \<noteq> []"
  shows "agent_iteration (scripted_env table) \<lparr>conversation = conv, final_response = fr\<rparr>
         = (if reason = ''stop''
            then Inr (Break \<lparr>conversation = conv @ [final_turn c], final_response = Some c\<rparr>)
            else Inr (Next \<lparr>conversation = conv @ [final_turn c], final_response = Some c\<rparr>))"
  using agent_iteration_answer
          [of "scripted_env table" "\<lparr>conversation = conv, final_response = fr\<rparr>"
              "text_choice c reason" "[]" JNull "Some c"
              "\<lparr>conversation = conv @ [final_turn c], final_response = Some c\<rparr>"]
        assms
  by (simp add: scripted_env_fields(2) scripted_def text_choice_text)
     (simp add: text_choice_def)

lemma silent_step:
  assumes "map_of table (length conv) = Some (text_choice [] ''stop'')"
  shows "agent_iteration (scripted_env table) \<lparr>conversation = conv, final_response = fr\<rparr>
         = Inr (Break \<lparr>conversation = conv, final_response = Some []\<rparr>)"
  using agent_iteration_answer
          [of "scripted_env table" "\<lparr>conversation = conv, final_response = fr\<rparr>"
              "text_choice [] ''stop''" "[]" JNull "Some []"
              "\<lparr>conversation = conv, final_response = Some []\<rparr>"]
        assms
  by (simp add: scripted_env_fields(2) scripted_def text_choice_text sniff_silent)
     (simp add: text_choice_def)

text \<open>
  C8, as the claim states it, fails: the loop ends on a reply without a command only
  when the reply's finish reason is \<^verbatim>\<open>stop\<close> (line 296). A second reply cut off by
  the token limit (finish reason \<^verbatim>\<open>length\<close>) carries no command and the loop goes
  on: the run below makes three iterations and returns the third reply's content.
\<close>

theorem third_iteration_counterexample:
  "call_model three_step_env (initial_messages ''list the files'') = Inr [call_choice]
   \<and> sniff_reply three_step_env (choice_message call_choice) = Inr (JStr ''ls'')
   \<and> call_model three_step_env (after_ls three_step_env ''list the files'')
       = Inr [text_choice ''Let me look at the output.'' ''length'']
   \<and> sniff_reply three_step_env
         (choice_message (text_choice ''Let me look at the output.'' ''length'')) = Inr JNull
   \<and> run_bash_agent three_step_env ''list the files'' 5
       = Inr \<lparr>returned = Some ''The directory is empty.'', iterations = 3,
              final_log = after_ls three_step_env ''list the files''
                          @ [final_turn ''Let me look at the output.'',
                             final_turn ''The directory is empty.'']\<rparr>"
proof -
  let ?table = "[(3, call_choice),
                 (5, text_choice ''Let me look at the output.'' ''length''),
                 (6::nat, text_choice ''The directory is empty.'' ''stop'')]"
  let ?env = "scripted_env ?table"
  let ?conv1 = "after_ls ?env ''list the files''"
  let ?conv2 = "?conv1 @ [final_turn ''Let me look at the output.'']"
  have e: "three_step_env = ?env"
    by (simp add: three_step_env_def)
  have c1: "call_model ?env (initial_messages ''list the files'') = Inr [call_choice]"
    by (simp add: scripted_env_fields(2) scripted_def length_initial_messages)
  have c2: "call_model ?env ?conv1 = Inr [text_choice ''Let me look at the output.'' ''length'']"
    by (simp add: scripted_env_fields(2) scripted_def length_after_ls)
  have s1: "agent_iteration ?env \<lparr>conversation = initial_messages ''list the files'',
                                  final_response = None\<rparr>
              = Inr (Next \<lparr>conversation = ?conv1, final_response = None\<rparr>)"
    by (rule first_step) simp
  have s2: "agent_iteration ?env \<lparr>conversation = ?conv1, final_response = None\<rparr>
              = Inr (Next \<lparr>conversation = ?conv2,
                           final_response = Some ''Let me look at the output.''\<rparr>)"
    using answer_step [of ?table ?conv1 "''Let me look at the output.''" "''length''" None]
    by (simp add: length_after_ls sniff_look_answer)
  have s3: "agent_iteration ?env \<lparr>conversation = ?conv2,
                                  final_response = Some ''Let me look at the output.''\<rparr>
              = Inr (Break \<lparr>conversation = ?conv2 @ [final_turn ''The directory is empty.''],
                            final_response = Some ''The directory is empty.''\<rparr>)"
    using answer_step [of ?table ?conv2 "''The directory is empty.''" "''stop''"
                          "Some ''Let me look at the output.''"]
    by (simp add: length_after_ls sniff_empty_answer)
  have "run_bash_agent ?env ''list the files'' 5
          = Inr \<lparr>returned = Some ''The directory is empty.'', iterations = 3,
                 final_log = ?conv2 @ [final_turn ''The directory is empty.'']\<rparr>"
    unfolding run_bash_agent_def
    by (simp add: agent_loop_next [OF _ s1] agent_loop_next [OF _ s2] agent_loop_break [OF _ s3])
  then show ?thesis
    using c1 c2 by (simp add: e sniff_call_choice sniff_look_answer)
qed


text \<open>
  C8, amended. For every run with at least two iterations allowed, in which the
  first reply yields a command and has a text to show (its \<^verbatim>\<open>content or reasoning\<close>
  is a string, not \<^verbatim>\<open>None\<close>) and the second reply yields no command and has the
  finish reason \<^verbatim>\<open>stop\<close>, the loop ends after exactly two iterations and returns
  the second reply's content, or its reasoning text when the content is empty.
\<close>

theorem two_iterations_when_second_reply_stops:
  assumes "2 \<le> max_iterations"
    and "call_model env (initial_messages user_task) = Inr (choice1 # others1)"
    and "sniff_reply env (choice_message choice1) = Inr command1"
    and "truthy command1"
    and "text_or (msg_content (choice_message choice1))
                 (msg_reasoning_content (choice_message choice1)) = Some shown"
    and "execute_bash_command (subprocess_run env) command1 default_cwd
           = Inr (out, return_code)"
    and "conv1 = initial_messages user_task
                 @ [assistant_turn shown, tool_turn env command1 return_code out]"
    and "call_model env conv1 = Inr (choice2 # others2)"
    and "sniff_reply env (choice_message choice2) = Inr command2"
    and "\<not> truthy command2"
    and "finish_reason choice2 = Some ''stop''"
    and "final = text_or (msg_content (choice_message choice2))
                         (msg_reasoning_content (choice_message choice2))"
  shows "run_bash_agent env user_task max_iterations
           = Inr \<lparr>returned = final, iterations = 2,
                  final_log =
                    (case final of
                       Some answer \<Rightarrow> (if answer \<noteq> [] then conv1 @ [final_turn answer] else conv1)
                     | None \<Rightarrow> conv1)\<rparr>
         \<and> (truthy_text (msg_content (choice_message choice2))
              \<longrightarrow> final = msg_content (choice_message choice2))"
proof -
  let ?st0 = "\<lparr>conversation = initial_messages user_task, final_response = None\<rparr>"
  let ?st1 = "\<lparr>conversation = conv1, final_response = None\<rparr>"
  let ?log = "case final of
                Some answer \<Rightarrow> (if answer \<noteq> [] then conv1 @ [final_turn answer] else conv1)
              | None \<Rightarrow> conv1"
  let ?st2 = "\<lparr>conversation = ?log, final_response = final\<rparr>"
  have i1: "agent_iteration env ?st0 = Inr (Next ?st1)"
    using agent_iteration_command [of env ?st0 choice1 others1 command1 out return_code shown]
          assms(2-7)
    by simp
  have i2: "agent_iteration env ?st1 = Inr (Break ?st2)"
    using agent_iteration_answer [of env ?st1 choice2 others2 command2 final ?st2]
          assms(8-12)
    by (simp cong: option.case_cong if_cong)
  have l2: "agent_loop env max_iterations (Suc 0) ?st1
              = Inr \<lparr>returned = final, iterations = 2, final_log = ?log\<rparr>"
    using assms(1) i2 by (simp add: agent_loop.simps [of env max_iterations "Suc 0" ?st1])
  have "agent_loop env max_iterations 0 ?st0 = agent_loop env max_iterations (Suc 0) ?st1"
    using assms(1) i1 by (simp add: agent_loop.simps [of env max_iterations 0 ?st0])
  with l2 show ?thesis
    using assms(12) by (simp add: run_bash_agent_def text_or_def)
qed

theorem two_iterations_when_second_reply_stops_witness:
  "(2::int) \<le> 5
   \<and> call_model two_step_env (initial_messages ''list the files'') = Inr (call_choice # [])
   \<and> sniff_reply two_step_env (choice_message call_choice) = Inr (JStr ''ls'')
   \<and> text_or (msg_content (choice_message call_choice))
              (msg_reasoning_content (choice_message call_choice)) = Some []
   \<and> call_model two_step_env (after_ls two_step_env ''list the files'')
       = Inr (text_choice ''The directory is empty.'' ''stop'' # [])
   \<and> sniff_reply two_step_env (choice_message (text_choice ''The directory is empty.'' ''stop''))
       = Inr JNull
   \<and> run_bash_agent two_step_env ''list the files'' 5
       = Inr \<lparr>returned = Some ''The directory is empty.'', iterations = 2,
              final_log = after_ls two_step_env ''list the files''
                          @ [final_turn ''The directory is empty.'']\<rparr>"
proof -
  let ?second = "text_choice ''The directory is empty.'' ''stop''"
  have 1: "(2::int) \<le> 5"
    by simp
  have 2: "call_model two_step_env (initial_messages ''list the files'') = Inr (call_choice # [])"
    by (simp add: two_step_env_def scripted_env_fields(2) scripted_def length_initial_messages)
  have 3: "sniff_reply two_step_env (choice_message call_choice) = Inr (JStr ''ls'')"
    by (simp add: two_step_env_def sniff_call_choice)
  have 4: "truthy (JStr ''ls'')"
    by simp
  have 5: "text_or (msg_content (choice_message call_choice))
                   (msg_reasoning_content (choice_message call_choice)) = Some []"
    by (rule call_choice_text)
  have 6: "execute_bash_command (subprocess_run two_step_env) (JStr ''ls'') default_cwd
             = Inr ([], 0)"
    by (simp add: two_step_env_def execute_scripted)
  have 7: "after_ls two_step_env ''list the files''
             = initial_messages ''list the files''
               @ [assistant_turn [], tool_turn two_step_env (JStr ''ls'') 0 []]"
    by (simp add: after_ls_def)
  have 8: "call_model two_step_env (after_ls two_step_env ''list the files'')
             = Inr (?second # [])"
    by (simp add: two_step_env_def scripted_env_fields(2) scripted_def length_after_ls)
  have 9: "sniff_reply two_step_env (choice_message ?second) = Inr JNull"
    by (simp add: two_step_env_def sniff_empty_answer)
  have 10: "\<not> truthy JNull"
    by simp
  have 11: "finish_reason ?second = Some ''stop''"
    by (simp add: text_choice_def)
  have 12: "Some ''The directory is empty.''
              = text_or (msg_content (choice_message ?second))
                        (msg_reasoning_content (choice_message ?second))"
    by (simp add: text_choice_text)
  show ?thesis
    using two_iterations_when_second_reply_stops [OF 1 2 3 4 5 6 7 8 9 10 11 12] 2 3 5 8 9
    by simp
qed

lemma answer_run:
  "run_bash_agent answer_env ''say hello'' 5
     = Inr \<lparr>returned = Some ''Done.'', iterations = 1,
            final_log = initial_messages ''say hello'' @ [final_turn ''Done.'']\<rparr>"
proof -
  have s: "agent_iteration answer_env
             \<lparr>conversation = initial_messages ''say hello'', final_response = None\<rparr>
           = Inr (Break \<lparr>conversation = initial_messages ''say hello'' @ [final_turn ''Done.''],
                         final_response = Some ''Done.''\<rparr>)"
    unfolding answer_env_def
    using answer_step [of "[(3, text_choice ''Done.'' ''stop'')]" "initial_messages ''say hello''"
                          "''Done.''" "''stop''" None]
    by (simp add: length_initial_messages sniff_done_answer)
  show ?thesis
    unfolding run_bash_agent_def by (simp add: agent_loop_break [OF _ s])
qed

text \<open>
  C9, as the claim states it, fails: the final turn is appended only
  \<^verbatim>\<open>if final_response\<close> (line 289). An iteration whose reply has no command, an
  empty content and no reasoning appends nothing.
\<close>

theorem silent_reply_appends_nothing_counterexample:
  "call_model silent_env (initial_messages ''list the files'') = Inr [text_choice [] ''stop'']
   \<and> sniff_reply silent_env (choice_message (text_choice [] ''stop'')) = Inr JNull
   \<and> agent_iteration silent_env
         \<lparr>conversation = initial_messages ''list the files'', final_response = None\<rparr>
       = Inr (Break \<lparr>conversation = initial_messages ''list the files'',
                     final_response = Some []\<rparr>)
   \<and> run_bash_agent silent_env ''list the files'' 5
       = Inr \<lparr>returned = Some [], iterations = 1,
              final_log = initial_messages ''list the files''\<rparr>"
proof -
  let ?st = "\<lparr>conversation = initial_messages ''list the files'', final_response = None\<rparr>"
  have c: "call_model silent_env (initial_messages ''list the files'')
             = Inr [text_choice [] ''stop'']"
    by (simp add: silent_env_def scripted_env_fields(2) scripted_def length_initial_messages)
  have s: "agent_iteration silent_env ?st
             = Inr (Break \<lparr>conversation = initial_messages ''list the files'',
                           final_response = Some []\<rparr>)"
    unfolding silent_env_def by (rule silent_step) (simp add: length_initial_messages)
  have "run_bash_agent silent_env ''list the files'' 5
          = Inr \<lparr>returned = Some [], iterations = 1,
                 final_log = initial_messages ''list the files''\<rparr>"
    unfolding run_bash_agent_def by (simp add: agent_loop_break [OF _ s])
  then show ?thesis
    using c s by (simp add: silent_env_def sniff_silent)
qed

text \<open>
  C9, amended. The conversation starts with one system turn, one developer turn and
  one user turn. Every iteration that gets a reply, sniffs it without an exception
  and, when a command was extracted, has a text to show (the reply's
  \<^verbatim>\<open>content or reasoning\<close> is a string, not \<^verbatim>\<open>None\<close>) ends normally, leaves the turns
  it found and appends: one assistant turn sent to the tool and one tool turn, when
  a command was extracted; one assistant turn tagged "final", when there is no
  command and the answer (the content, or else the reasoning) is not empty;
  nothing, when there is no command and the answer is empty. Every iteration that
  ends normally appends turns of these kinds only, and at the end of every run that
  returns the log is the three starting turns followed by turns of these kinds.
\<close>

theorem conversation_log_grows_by_turns:
  "map author_role (initial_messages user_task) = [SYSTEM, DEVELOPER, USER]
   \<and> (\<forall>choice0 others command.
         call_model env (conversation st) = Inr (choice0 # others)
         \<and> sniff_reply env (choice_message choice0) = Inr command
         \<and> (truthy command
              \<longrightarrow> text_or (msg_content (choice_message choice0))
                          (msg_reasoning_content (choice_message choice0)) \<noteq> None)
         \<longrightarrow> (\<exists>st' added.
                (agent_iteration env st = Inr (Next st')
                 \<or> agent_iteration env st = Inr (Break st'))
                \<and> conversation st' = conversation st @ added
                \<and> (if truthy command
                    then \<exists>a t. added = [a, t] \<and> is_call_turn a \<and> is_tool_turn t
                    else if truthy_text (text_or (msg_content (choice_message choice0))
                                          (msg_reasoning_content (choice_message choice0)))
                    then \<exists>f. added = [f] \<and> is_final_turn f
                    else added = [])))
   \<and> (\<forall>st'. agent_iteration env st = Inr (Next st') \<or> agent_iteration env st = Inr (Break st')
         \<longrightarrow> (\<exists>added. conversation st' = conversation st @ added \<and> loop_turns added))
   \<and> (\<forall>res. run_bash_agent env user_task max_iterations = Inr res
         \<longrightarrow> (\<exists>added. final_log res = initial_messages user_task @ added
                      \<and> loop_turns added))"
proof (intro conjI allI impI)
  show "map author_role (initial_messages user_task) = [SYSTEM, DEVELOPER, USER]"
    by (simp add: initial_messages_def)
next
  fix choice0 others command
  assume a: "call_model env (conversation st) = Inr (choice0 # others)
             \<and> sniff_reply env (choice_message choice0) = Inr command
             \<and> (truthy command
                  \<longrightarrow> text_or (msg_content (choice_message choice0))
                              (msg_reasoning_content (choice_message choice0)) \<noteq> None)"
  let ?final = "text_or (msg_content (choice_message choice0))
                        (msg_reasoning_content (choice_message choice0))"
  let ?shape = "\<lambda>added. if truthy command
              then \<exists>a t. added = [a, t] \<and> is_call_turn a \<and> is_tool_turn t
              else if truthy_text ?final
              then \<exists>f. added = [f] \<and> is_final_turn f
              else added = []"
  show "\<exists>st' added.
          (agent_iteration env st = Inr (Next st') \<or> agent_iteration env st = Inr (Break st'))
          \<and> conversation st' = conversation st @ added
          \<and> ?shape added"
  proof (cases "truthy command")
    case True
    obtain out return_code where
      ex: "execute_bash_command (subprocess_run env) command default_cwd = Inr (out, return_code)"
      using execute_returns by blast
    obtain shown where sh: "?final = Some shown"
      using a True by auto
    define added where "added = [assistant_turn shown, tool_turn env command return_code out]"
    define st1 where "st1 = st\<lparr>conversation := conversation st @ added\<rparr>"
    have A: "agent_iteration env st = Inr (Next st1)"
      using agent_iteration_command [of env st choice0 others command out return_code shown]
            a True ex sh
      by (simp add: st1_def added_def)
    have B: "conversation st1 = conversation st @ added"
      by (simp add: st1_def)
    have C: "?shape added"
      using True by (simp add: added_def turn_shapes)
    from A B C show ?thesis
      by blast
  next
    case False
    define added where
      "added = (case ?final of
                  Some answer \<Rightarrow> (if answer \<noteq> [] then [final_turn answer] else [])
                | None \<Rightarrow> [])"
    define st2 where "st2 = st\<lparr>final_response := ?final,
                   conversation :=
                     (case ?final of
                        Some answer \<Rightarrow>
                          (if answer \<noteq> [] then conversation st @ [final_turn answer]
                           else conversation st)
                      | None \<Rightarrow> conversation st)\<rparr>"
    have "agent_iteration env st
           = (if finish_reason choice0 = Some ''stop'' then Inr (Break st2) else Inr (Next st2))"
      using agent_iteration_answer [of env st choice0 others command ?final st2]
            a False st2_def
      by simp
    then have A: "agent_iteration env st = Inr (Next st2) \<or> agent_iteration env st = Inr (Break st2)"
      by simp
    have B: "conversation st2 = conversation st @ added"
      by (simp add: st2_def added_def split: option.splits)
    have C: "?shape added"
      using False by (cases ?final) (simp_all add: added_def turn_shapes)
    from A B C show ?thesis
      by blast
  qed
next
  fix st'
  assume "agent_iteration env st = Inr (Next st') \<or> agent_iteration env st = Inr (Break st')"
  then show "\<exists>added. conversation st' = conversation st @ added \<and> loop_turns added"
    by (rule agent_iteration_appends)
next
  fix res
  assume "run_bash_agent env user_task max_iterations = Inr res"
  then have "agent_loop env max_iterations 0
               \<lparr>conversation = initial_messages user_task, final_response = None\<rparr> = Inr res"
    by (simp add: run_bash_agent_def)
  then show "\<exists>added. final_log res = initial_messages user_task @ added \<and> loop_turns added"
    by (rule agent_loop_log [where added = "[]"]) simp_all
qed

theorem conversation_log_grows_by_turns_witness:
  "map author_role (initial_messages ''say hello'') = [SYSTEM, DEVELOPER, USER]
   \<and> run_bash_agent answer_env ''say hello'' 5
       = Inr \<lparr>returned = Some ''Done.'', iterations = 1,
              final_log = initial_messages ''say hello'' @ [final_turn ''Done.'']\<rparr>
   \<and> (\<exists>added. initial_messages ''say hello'' @ [final_turn ''Done.'']
                 = initial_messages ''say hello'' @ added
               \<and> loop_turns added)"
  using conversation_log_grows_by_turns
          [of "''say hello''" answer_env
              "\<lparr>conversation = initial_messages ''say hello'', final_response = None\<rparr>" 5]
        answer_run
  by auto

end
